theory Spec2Isabelle
  imports Main "HOL-Library.Word"
begin

section \<open>JavaScript strings and values\<close>

text \<open>
  The service (\<^verbatim>\<open>services/ssh-service.js\<close>, class \<^verbatim>\<open>SSHService\<close>) works on JavaScript
  strings, which are sequences of 16-bit code units. A string is modelled as a list of
  16-bit words, so every theorem quantifying over strings covers every JavaScript string.
  \<open>js\<close> turns an ASCII literal of the source into its code units.
\<close>

type_synonym jschar = "16 word"
type_synonym jsstring = "jschar list"

definition js :: "string \<Rightarrow> jsstring" where
  "js s = map (\<lambda>c. of_char c) s"

text \<open>
  The regular-expression class \<^verbatim>\<open>\s\<close> and \<^verbatim>\<open>String.prototype.trim\<close> use the same set:
  the WhiteSpace and LineTerminator code points of ECMAScript. \<^verbatim>\<open>\d\<close> is \<^verbatim>\<open>[0-9]\<close>, and
  \<^verbatim>\<open>.\<close> (without the \<^verbatim>\<open>s\<close> flag) matches everything but the four line terminators.
\<close>

definition isSpace :: "jschar \<Rightarrow> bool" where
  "isSpace c = (c = 9 \<or> c = 10 \<or> c = 11 \<or> c = 12 \<or> c = 13 \<or> c = 32 \<or> c = 160 \<or>
     c = 0x1680 \<or> (0x2000 \<le> c \<and> c \<le> 0x200A) \<or> c = 0x2028 \<or> c = 0x2029 \<or>
     c = 0x202F \<or> c = 0x205F \<or> c = 0x3000 \<or> c = 0xFEFF)"

definition nonSpace :: "jschar \<Rightarrow> bool" where
  "nonSpace c = (\<not> isSpace c)"

definition isDigit :: "jschar \<Rightarrow> bool" where
  "isDigit c = (48 \<le> c \<and> c \<le> 57)"

definition isDigitOrDot :: "jschar \<Rightarrow> bool" where
  "isDigitOrDot c = (isDigit c \<or> c = 46)"

definition isLineTerminator :: "jschar \<Rightarrow> bool" where
  "isLineTerminator c = (c = 10 \<or> c = 13 \<or> c = 0x2028 \<or> c = 0x2029)"

definition notLineTerminator :: "jschar \<Rightarrow> bool" where
  "notLineTerminator c = (\<not> isLineTerminator c)"

text \<open>
  The values the parsers store in fields: \<^verbatim>\<open>null\<close>, \<^verbatim>\<open>undefined\<close> or a string.
  \<open>truthy\<close> is JavaScript's boolean coercion (the empty string is falsy), and
  \<open>toStr\<close> the string coercion of a template literal or of \<^verbatim>\<open>+\<close> with a string.
\<close>

datatype jsval = Null | Undefined | Str jsstring

fun truthy :: "jsval \<Rightarrow> bool" where
  "truthy Null = False"
| "truthy Undefined = False"
| "truthy (Str s) = (s \<noteq> [])"

fun toStr :: "jsval \<Rightarrow> jsstring" where
  "toStr Null = js ''null''"
| "toStr Undefined = js ''undefined''"
| "toStr (Str s) = s"

text \<open>
  What a JavaScript function can throw. \<open>TypeError\<close> is the fault of reading a property
  of \<^verbatim>\<open>null\<close> or \<^verbatim>\<open>undefined\<close>; the others are the \<^verbatim>\<open>Error\<close> objects the service
  creates itself, kept apart by their message prefix.
\<close>

datatype js_error =
    TypeError
  | NoActiveConnection
  | ExecError jsstring
  | CommandFailed "int option" jsstring
  | KeyReadError jsstring
  | ConnectError jsstring

definition bindE :: "js_error + 'a \<Rightarrow> ('a \<Rightarrow> js_error + 'b) \<Rightarrow> js_error + 'b" where
  "bindE m f = (case m of Inl e \<Rightarrow> Inl e | Inr x \<Rightarrow> f x)"

fun foldE :: "('s \<Rightarrow> 'a \<Rightarrow> js_error + 's) \<Rightarrow> 'a list \<Rightarrow> 's \<Rightarrow> js_error + 's" where
  "foldE f [] s = Inr s"
| "foldE f (x # xs) s = bindE (f s x) (foldE f xs)"

subsection \<open>String methods\<close>

definition startsWith :: "jsstring \<Rightarrow> jsstring \<Rightarrow> bool" where
  "startsWith s p = (take (length p) s = p)"

text \<open>\<^verbatim>\<open>v.startsWith(p)\<close> on a value that may be missing: a TypeError unless it is a string.\<close>

fun startsWithV :: "jsval \<Rightarrow> jsstring \<Rightarrow> js_error + bool" where
  "startsWithV (Str s) p = Inr (startsWith s p)"
| "startsWithV Null p = Inl TypeError"
| "startsWithV Undefined p = Inl TypeError"

text \<open>\<^verbatim>\<open>s.split('\n')\<close>: always at least one piece; the empty string gives \<^verbatim>\<open>['']\<close>.\<close>

fun splitLines :: "jsstring \<Rightarrow> jsstring list" where
  "splitLines [] = [[]]"
| "splitLines (c # cs) =
     (if c = 10 then [] # splitLines cs
      else (case splitLines cs of [] \<Rightarrow> [[c]] | l # ls \<Rightarrow> (c # l) # ls))"

definition trim :: "jsstring \<Rightarrow> jsstring" where
  "trim s = rev (dropWhile isSpace (rev (dropWhile isSpace s)))"

text \<open>
  \<^verbatim>\<open>s.split(/\s+/)\<close>: the pieces between the maximal runs of whitespace. Leading or
  trailing whitespace gives an empty first or last piece, and the empty string gives
  \<^verbatim>\<open>['']\<close>. \<open>cur\<close> is the piece being read, reversed.
\<close>

fun splitWsFrom :: "jsstring \<Rightarrow> bool \<Rightarrow> jsstring \<Rightarrow> jsstring list" where
  "splitWsFrom cur inWs [] = [rev cur]"
| "splitWsFrom cur inWs (c # cs) =
     (if isSpace c then (if inWs then splitWsFrom cur True cs else rev cur # splitWsFrom [] True cs)
      else splitWsFrom (c # cur) False cs)"

definition splitWs :: "jsstring \<Rightarrow> jsstring list" where
  "splitWs s = splitWsFrom [] False s"

text \<open>\<^verbatim>\<open>parts.join(' ')\<close>.\<close>

fun joinSp :: "jsstring list \<Rightarrow> jsstring" where
  "joinSp [] = []"
| "joinSp [p] = p"
| "joinSp (p # q # ps) = p @ js '' '' @ joinSp (q # ps)"

text \<open>\<^verbatim>\<open>a[i]\<close> on an array of strings: \<^verbatim>\<open>undefined\<close> out of range, never a fault.\<close>

definition at :: "jsstring list \<Rightarrow> nat \<Rightarrow> jsval" where
  "at xs i = (if i < length xs then Str (xs ! i) else Undefined)"

subsection \<open>Regular expressions\<close>

text \<open>
  \<^verbatim>\<open>s.match(re)\<close> without the \<^verbatim>\<open>g\<close> flag gives \<^verbatim>\<open>null\<close> or the array of the whole match
  followed by the capture groups, for the leftmost position where \<open>re\<close> matches.
  \<open>None\<close> is \<^verbatim>\<open>null\<close>. Reading an index of \<^verbatim>\<open>null\<close> is a TypeError.
\<close>

type_synonym jsmatch = "jsval list option"

fun matchGroup :: "jsmatch \<Rightarrow> nat \<Rightarrow> js_error + jsval" where
  "matchGroup None i = Inl TypeError"
| "matchGroup (Some gs) i = Inr (if i < length gs then gs ! i else Undefined)"

text \<open>The leftmost match of an unanchored expression: try each start position in turn.\<close>

fun search :: "(jsstring \<Rightarrow> 'a option) \<Rightarrow> jsstring \<Rightarrow> 'a option" where
  "search m [] = m []"
| "search m (c # cs) = (case m (c # cs) of Some r \<Rightarrow> Some r | None \<Rightarrow> search m cs)"

text \<open>
  The pieces of the expressions, each returning what it consumed and what is left.
  \<open>many1 P\<close> is a greedy \<^verbatim>\<open>C+\<close> for a character class. In every expression of the
  service a class with \<^verbatim>\<open>+\<close> is followed by the end of the expression, by optional
  parts only, or by a class disjoint from it, so giving back characters can never turn a
  failure into a match and the greedy run is the one the engine ends with.
\<close>

definition lit :: "jsstring \<Rightarrow> jsstring \<Rightarrow> jsstring option" where
  "lit p s = (if startsWith s p then Some (drop (length p) s) else None)"

definition many :: "(jschar \<Rightarrow> bool) \<Rightarrow> jsstring \<Rightarrow> jsstring \<times> jsstring" where
  "many P s = (takeWhile P s, dropWhile P s)"

definition many1 :: "(jschar \<Rightarrow> bool) \<Rightarrow> jsstring \<Rightarrow> (jsstring \<times> jsstring) option" where
  "many1 P s = (if takeWhile P s = [] then None else Some (takeWhile P s, dropWhile P s))"

text \<open>\<^verbatim>\<open>/spt:(\d+)/\<close>\<close>

definition spt_at :: "jsstring \<Rightarrow> jsval list option" where
  "spt_at s =
     (case lit (js ''spt:'') s of None \<Rightarrow> None
      | Some r \<Rightarrow> (case many1 isDigit r of None \<Rightarrow> None
          | Some (g, _) \<Rightarrow> Some [Str (js ''spt:'' @ g), Str g]))"

text \<open>\<^verbatim>\<open>/dpts?:(\d+(?::\d+)?)/\<close>\<close>

definition dpt_at :: "jsstring \<Rightarrow> jsval list option" where
  "dpt_at s =
     (case lit (js ''dpt'') s of None \<Rightarrow> None
      | Some r0 \<Rightarrow>
         (let (opt_s, r1) = (case lit (js ''s:'') r0 of Some _ \<Rightarrow> (js ''s'', drop 1 r0) | None \<Rightarrow> ([], r0)) in
          case lit (js '':'') r1 of None \<Rightarrow> None
          | Some r2 \<Rightarrow> (case many1 isDigit r2 of None \<Rightarrow> None
              | Some (d1, r3) \<Rightarrow>
                 (let g = (case lit (js '':'') r3 of None \<Rightarrow> d1
                           | Some r4 \<Rightarrow> (case many1 isDigit r4 of None \<Rightarrow> d1
                               | Some (d2, _) \<Rightarrow> d1 @ js '':'' @ d2))
                  in Some [Str (js ''dpt'' @ opt_s @ js '':'' @ g), Str g]))))"

text \<open>\<^verbatim>\<open>/to:([\d.]+):?(\d+)?/\<close>: the second group is \<^verbatim>\<open>undefined\<close> when it matched nothing.\<close>

definition to_at :: "jsstring \<Rightarrow> jsval list option" where
  "to_at s =
     (case lit (js ''to:'') s of None \<Rightarrow> None
      | Some r \<Rightarrow> (case many1 isDigitOrDot r of None \<Rightarrow> None
          | Some (g1, r1) \<Rightarrow>
             (let (colon, r2) = (case lit (js '':'') r1 of Some r' \<Rightarrow> (js '':'', r') | None \<Rightarrow> ([], r1));
                  (d, _) = many isDigit r2
              in Some [Str (js ''to:'' @ g1 @ colon @ d), Str g1, if d = [] then Undefined else Str d])))"

section \<open>The extra column of a listing: parseExtraFields\<close>

record extra_fields =
  sourcePort :: jsval
  destPort :: jsval
  toDestIP :: jsval
  toDestPort :: jsval
  toDestination :: jsval

definition parseExtraFields :: "jsstring \<Rightarrow> js_error + extra_fields" where
  "parseExtraFields extraString =
     (let result = \<lparr>sourcePort = Null, destPort = Null, toDestIP = Null, toDestPort = Null,
                     toDestination = Null\<rparr>
      in if \<not> truthy (Str extraString) then Inr result
         else
           let sptMatch = search spt_at extraString in
           bindE (if sptMatch \<noteq> None
                  then bindE (matchGroup sptMatch 1) (\<lambda>g. Inr (result\<lparr>sourcePort := g\<rparr>))
                  else Inr result) (\<lambda>result.
           let dptMatch = search dpt_at extraString in
           bindE (if dptMatch \<noteq> None
                  then bindE (matchGroup dptMatch 1) (\<lambda>g. Inr (result\<lparr>destPort := g\<rparr>))
                  else Inr result) (\<lambda>result.
           let toMatch = search to_at extraString in
           if toMatch \<noteq> None
           then bindE (matchGroup toMatch 1) (\<lambda>g1.
                bindE (matchGroup toMatch 2) (\<lambda>g2.
                  Inr (result\<lparr>toDestIP := g1,
                              toDestPort := (if truthy g2 then g2 else Null),
                              toDestination := (if truthy g2 then Str (toStr g1 @ js '':'' @ toStr g2)
                                                else g1)\<rparr>)))
           else Inr result)))"

section \<open>The listing format: parseIptablesOutput\<close>

text \<open>
  A chain object \<^verbatim>\<open>{ chain, rules }\<close>; the chains of the dump format add \<^verbatim>\<open>policy\<close>.
  A rule of the listing holds the columns and the five fields taken from the extra column.
\<close>

record 'r chain_entry =
  chain :: jsval
  rules :: "'r list"

record listing_rule = extra_fields +
  num :: jsval
  target :: jsval
  prot :: jsval
  opt :: jsval
  source :: jsval
  destination :: jsval
  extra :: jsstring

type_synonym listing_chain = "listing_rule chain_entry"

text \<open>\<^verbatim>\<open>/Chain (\S+)/\<close>\<close>

definition chainHeader_at :: "jsstring \<Rightarrow> jsval list option" where
  "chainHeader_at s =
     (case lit (js ''Chain '') s of None \<Rightarrow> None
      | Some r \<Rightarrow> (case many1 nonSpace r of None \<Rightarrow> None
          | Some (g, _) \<Rightarrow> Some [Str (js ''Chain '' @ g), Str g]))"

text \<open>\<^verbatim>\<open>/^\s*\d+/\<close>: anchored at the start of the line, so no search.\<close>

definition ruleNumber_match :: "jsstring \<Rightarrow> jsmatch" where
  "ruleNumber_match s =
     (let (ws, r) = many isSpace s in
      case many1 isDigit r of None \<Rightarrow> None | Some (d, _) \<Rightarrow> Some [Str (ws @ d)])"

text \<open>
  One iteration of the loop over the lines. The loop's variables \<^verbatim>\<open>chains\<close>,
  \<^verbatim>\<open>currentChain\<close> and \<^verbatim>\<open>rules\<close> are the state; \<open>chains'\<close> and \<open>rules'\<close> carry a
  prime because the unprimed names are constants already. \<^verbatim>\<open>chains.push({ chain, rules })\<close>
  stores the array \<open>rules\<close> that is then replaced by a new one, never changed again.
\<close>

definition listingLine ::
  "listing_chain list \<times> jsval \<times> listing_rule list \<Rightarrow> jsstring \<Rightarrow>
   js_error + listing_chain list \<times> jsval \<times> listing_rule list" where
  "listingLine st line =
     (case st of (chains', currentChain, rules') \<Rightarrow>
        if startsWith line (js ''Chain'') then
          let chains' = (if truthy currentChain
                         then chains' @ [\<lparr>chain = currentChain, rules = rules'\<rparr>] else chains');
              match = search chainHeader_at line
          in bindE (if match \<noteq> None then matchGroup match 1 else Inr Null) (\<lambda>currentChain.
             Inr (chains', currentChain, []))
        else if ruleNumber_match line \<noteq> None then
          let parts = splitWs (trim line) in
          if length parts \<ge> 8 then
            let extraString = joinSp (drop 8 parts) in
            bindE (parseExtraFields extraString) (\<lambda>parsedExtra.
              Inr (chains', currentChain, rules' @
                [\<lparr>sourcePort = sourcePort parsedExtra, destPort = destPort parsedExtra,
                  toDestIP = toDestIP parsedExtra, toDestPort = toDestPort parsedExtra,
                  toDestination = toDestination parsedExtra,
                  num = at parts 0, target = at parts 3, prot = at parts 4, opt = at parts 5,
                  source = at parts 6, destination = at parts 7, extra = extraString\<rparr>]))
          else Inr st
        else Inr st)"

definition parseIptablesOutput :: "jsstring \<Rightarrow> js_error + listing_chain list" where
  "parseIptablesOutput output =
     (let lines = splitLines output in
      bindE (foldE listingLine lines ([], Null, [])) (\<lambda>(chains', currentChain, rules').
        Inr (if truthy currentChain
             then chains' @ [\<lparr>chain = currentChain, rules = rules'\<rparr>] else chains')))"

section \<open>The option string of a rule: parseRuleContent\<close>

record parsed_rule =
  protocol :: jsval
  source' :: jsval
  destination' :: jsval
  sport :: jsval
  dport :: jsval
  target' :: jsval
  toDestination' :: jsval
  other :: "jsstring list"

lemma bindE_cong [fundef_cong]:
  "m = m' \<Longrightarrow> (\<And>x. m' = Inr x \<Longrightarrow> f x = f' x) \<Longrightarrow> bindE m f = bindE m' f'"
  by (cases m') (simp_all add: bindE_def)

text \<open>
  The \<^verbatim>\<open>for\<close> loop over \<^verbatim>\<open>tokens\<close>. An iteration reads \<^verbatim>\<open>tokens[i]\<close> and at most
  \<^verbatim>\<open>tokens[i + 1]\<close>, so the tokens from \<open>i\<close> on are the loop's state: \<open>token\<close> is
  \<^verbatim>\<open>tokens[i]\<close>, \<open>at rest 0\<close> is \<^verbatim>\<open>tokens[i + 1]\<close> (\<^verbatim>\<open>undefined\<close> past the end), and
  \<open>drop 1 rest\<close> is the loop after \<^verbatim>\<open>++i\<close> and the \<^verbatim>\<open>i++\<close> of the loop header.
\<close>

fun parseTokens :: "jsstring list \<Rightarrow> parsed_rule \<Rightarrow> js_error + parsed_rule" where
  "parseTokens [] parsed = Inr parsed"
| "parseTokens (token # rest) parsed =
     (if token = js ''-p'' then parseTokens (drop 1 rest) (parsed\<lparr>protocol := at rest 0\<rparr>)
      else if token = js ''-s'' then parseTokens (drop 1 rest) (parsed\<lparr>source' := at rest 0\<rparr>)
      else if token = js ''-d'' then parseTokens (drop 1 rest) (parsed\<lparr>destination' := at rest 0\<rparr>)
      else if token = js ''--sport'' then parseTokens (drop 1 rest) (parsed\<lparr>sport := at rest 0\<rparr>)
      else if token = js ''--dport'' then parseTokens (drop 1 rest) (parsed\<lparr>dport := at rest 0\<rparr>)
      else if token = js ''-j'' then parseTokens (drop 1 rest) (parsed\<lparr>target' := at rest 0\<rparr>)
      else if token = js ''--to-destination''
        then parseTokens (drop 1 rest) (parsed\<lparr>toDestination' := at rest 0\<rparr>)
      else if startsWith token (js ''-'') then
        bindE (if truthy (at rest 0)
               then bindE (startsWithV (at rest 0) (js ''-'')) (\<lambda>b. Inr (\<not> b))
               else Inr False) (\<lambda>paired.
          if paired
          then parseTokens (drop 1 rest)
                 (parsed\<lparr>other := other parsed @ [token @ js '' '' @ toStr (at rest 0)]\<rparr>)
          else parseTokens rest (parsed\<lparr>other := other parsed @ [token]\<rparr>))
      else parseTokens rest parsed)"

text \<open>\<^verbatim>\<open>content.split(/\s+/)\<close> is a method call: a TypeError unless \<open>content\<close> is a string.\<close>

definition parseRuleContent :: "jsval \<Rightarrow> js_error + parsed_rule" where
  "parseRuleContent content =
     (let parsed = \<lparr>protocol = Null, source' = Null, destination' = Null, sport = Null,
                     dport = Null, target' = Null, toDestination' = Null, other = []\<rparr>
      in case content of
           Str s \<Rightarrow> parseTokens (splitWs s) parsed
         | Null \<Rightarrow> Inl TypeError
         | Undefined \<Rightarrow> Inl TypeError)"

section \<open>The dump format: parseIptablesSave\<close>

record save_rule =
  raw :: jsstring
  content :: jsval
  parsed :: parsed_rule

record save_chain = "save_rule chain_entry" +
  policy :: jsval

text \<open>\<^verbatim>\<open>/:(\S+)\s+(\S+)/\<close>\<close>

definition chainDecl_at :: "jsstring \<Rightarrow> jsval list option" where
  "chainDecl_at s =
     (case lit (js '':'') s of None \<Rightarrow> None
      | Some r \<Rightarrow> (case many1 nonSpace r of None \<Rightarrow> None
          | Some (g1, r1) \<Rightarrow> (case many1 isSpace r1 of None \<Rightarrow> None
              | Some (ws, r2) \<Rightarrow> (case many1 nonSpace r2 of None \<Rightarrow> None
                  | Some (g2, _) \<Rightarrow> Some [Str (js '':'' @ g1 @ ws @ g2), Str g1, Str g2]))))"

text \<open>\<^verbatim>\<open>/-A\s+(\S+)\s+(.*)/\<close>\<close>

definition appendRule_at :: "jsstring \<Rightarrow> jsval list option" where
  "appendRule_at s =
     (case lit (js ''-A'') s of None \<Rightarrow> None
      | Some r \<Rightarrow> (case many1 isSpace r of None \<Rightarrow> None
          | Some (ws1, r1) \<Rightarrow> (case many1 nonSpace r1 of None \<Rightarrow> None
              | Some (g1, r2) \<Rightarrow> (case many1 isSpace r2 of None \<Rightarrow> None
                  | Some (ws2, r3) \<Rightarrow>
                     (let (g2, _) = many notLineTerminator r3
                      in Some [Str (js ''-A'' @ ws1 @ g1 @ ws2 @ g2), Str g1, Str g2])))))"

text \<open>
  \<^verbatim>\<open>tables[key] = value\<close> on an object created by \<^verbatim>\<open>{}\<close>. The model of the object is the
  map of its own properties, which is what the caller serialises. The key \<^verbatim>\<open>__proto__\<close>
  is the accessor inherited from \<^verbatim>\<open>Object.prototype\<close>: assigning to it replaces the
  prototype and creates no own property.
\<close>

definition setProp :: "(jsstring \<rightharpoonup> 'v) \<Rightarrow> jsstring \<Rightarrow> 'v \<Rightarrow> (jsstring \<rightharpoonup> 'v)" where
  "setProp obj key v = (if key = js ''__proto__'' then obj else obj(key \<mapsto> v))"

text \<open>
  \<^verbatim>\<open>chainObj.rules.push(rule)\<close> where \<open>chainObj\<close> is what \<^verbatim>\<open>find\<close> returned: the first
  chain of that name, changed in place within \<^verbatim>\<open>currentChains\<close>.
\<close>

fun pushRule :: "jsval \<Rightarrow> save_rule \<Rightarrow> save_chain list \<Rightarrow> save_chain list" where
  "pushRule chainName r [] = []"
| "pushRule chainName r (c # cs) =
     (if chain c = chainName then c\<lparr>rules := rules c @ [r]\<rparr> # cs
      else c # pushRule chainName r cs)"

definition saveLine ::
  "(jsstring \<rightharpoonup> save_chain list) \<times> jsval \<times> save_chain list \<Rightarrow> jsstring \<Rightarrow>
   js_error + (jsstring \<rightharpoonup> save_chain list) \<times> jsval \<times> save_chain list" where
  "saveLine st line =
     (case st of (tables, currentTable, currentChains) \<Rightarrow>
        if startsWith line (js ''*'') then
          let tables = (if truthy currentTable
                        then setProp tables (toStr currentTable) currentChains else tables)
          in Inr (tables, Str (drop 1 line), [])
        else if startsWith line (js '':'') then
          let match = search chainDecl_at line in
          if match \<noteq> None then
            bindE (matchGroup match 1) (\<lambda>g1.
            bindE (matchGroup match 2) (\<lambda>g2.
              Inr (tables, currentTable,
                   currentChains @ [\<lparr>chain = g1, rules = [], policy = g2\<rparr>])))
          else Inr st
        else if startsWith line (js ''-A '') then
          let match = search appendRule_at line in
          if match \<noteq> None \<and> length currentChains > 0 then
            bindE (matchGroup match 1) (\<lambda>chainName.
            bindE (matchGroup match 2) (\<lambda>ruleContent.
              let chainObj = find (\<lambda>c. chain c = chainName) currentChains in
              if chainObj \<noteq> None then
                bindE (parseRuleContent ruleContent) (\<lambda>p.
                  Inr (tables, currentTable,
                       pushRule chainName \<lparr>raw = line, content = ruleContent, parsed = p\<rparr>
                         currentChains))
              else Inr st))
          else Inr st
        else Inr st)"

definition parseIptablesSave :: "jsstring \<Rightarrow> js_error + (jsstring \<rightharpoonup> save_chain list)" where
  "parseIptablesSave output =
     (let lines = splitLines output in
      bindE (foldE saveLine lines (Map.empty, Null, [])) (\<lambda>(tables, currentTable, currentChains).
        Inr (if truthy currentTable
             then setProp tables (toStr currentTable) currentChains else tables)))"

section \<open>Connections and remote commands\<close>

text \<open>
  The service object holds \<^verbatim>\<open>connections\<close>, a \<^verbatim>\<open>Map\<close> from session id to \<^verbatim>\<open>Client\<close>.
  A client is identified by its creation number. Beside the map, the model records what
  the service does to the outside: \<open>live\<close> lists the clients that reached \<^verbatim>\<open>ready\<close> and
  were not ended, each with the session it was opened for, and \<open>sent\<close> lists the commands
  handed to \<^verbatim>\<open>conn.exec\<close>, in order.
\<close>

type_synonym session = jsstring
type_synonym client = nat

record world =
  connections :: "session \<rightharpoonup> client"
  created :: nat
  live :: "(client \<times> session) list"
  sent :: "(client \<times> jsstring) list"

definition initial :: world where
  "initial = \<lparr>connections = Map.empty, created = 0, live = [], sent = []\<rparr>"

text \<open>
  What the outside decides: how an attempt to connect ends (the key file cannot be read,
  the client emits \<^verbatim>\<open>error\<close>, or it emits \<^verbatim>\<open>ready\<close>), and how a command ends
  (\<^verbatim>\<open>exec\<close> calls back with an error, or the stream closes with an exit code, which is
  \<^verbatim>\<open>null\<close> for a process killed by a signal, after the given output). The remote host
  answers a command knowing everything sent before.
\<close>

datatype connect_outcome = KeyUnreadable jsstring | ClientError jsstring | Ready

datatype exec_outcome = ExecCallbackError jsstring | Closed "int option" jsstring jsstring

type_synonym remote = "(client \<times> jsstring) list \<Rightarrow> client \<Rightarrow> jsstring \<Rightarrow> exec_outcome"

definition connect :: "world \<Rightarrow> session \<Rightarrow> connect_outcome \<Rightarrow> (js_error + bool) \<times> world" where
  "connect w sessionId outcome =
     (let conn = created w;
          w = w\<lparr>created := Suc conn\<rparr>
      in case outcome of
           Ready \<Rightarrow>
             (Inr True, w\<lparr>connections := (connections w)(sessionId \<mapsto> conn),
                          live := live w @ [(conn, sessionId)]\<rparr>)
         | ClientError msg \<Rightarrow> (Inl (ConnectError msg), w)
         | KeyUnreadable msg \<Rightarrow> (Inl (KeyReadError msg), w))"

definition disconnect :: "world \<Rightarrow> session \<Rightarrow> world" where
  "disconnect w sessionId =
     (case connections w sessionId of
        Some conn \<Rightarrow>
          w\<lparr>live := filter (\<lambda>(c, s). c \<noteq> conn) (live w),
            connections := (connections w)(sessionId := None)\<rparr>
      | None \<Rightarrow> w)"

definition isConnected :: "world \<Rightarrow> session \<Rightarrow> bool" where
  "isConnected w sessionId = (connections w sessionId \<noteq> None)"

definition executeCommand ::
  "remote \<Rightarrow> world \<Rightarrow> session \<Rightarrow> jsstring \<Rightarrow> (js_error + jsstring) \<times> world" where
  "executeCommand host w sessionId command =
     (case connections w sessionId of
        None \<Rightarrow> (Inl NoActiveConnection, w)
      | Some conn \<Rightarrow>
          (case host (sent w) conn command of
             ExecCallbackError msg \<Rightarrow> Inl (ExecError msg)
           | Closed code stdout stderr \<Rightarrow>
               if code \<noteq> Some 0 then Inl (CommandFailed code stderr) else Inr stdout,
           w\<lparr>sent := sent w @ [(conn, command)]\<rparr>))"

section \<open>The operations on rules\<close>

text \<open>
  A default parameter \<^verbatim>\<open>table = 'filter'\<close> takes its default when the argument is
  \<^verbatim>\<open>undefined\<close>.
\<close>

definition orDefault :: "jsval \<Rightarrow> jsstring \<Rightarrow> jsval" where
  "orDefault v d = (if v = Undefined then Str d else v)"

text \<open>
  One iteration of the loop of \<^verbatim>\<open>listAllRules\<close>: the \<^verbatim>\<open>try\<close> block runs the command and
  parses its output, and the \<^verbatim>\<open>catch\<close> block stores the empty list.
\<close>

definition listTable ::
  "remote \<Rightarrow> session \<Rightarrow> (jsstring \<rightharpoonup> listing_chain list) \<times> world \<Rightarrow> jsstring \<Rightarrow>
   (jsstring \<rightharpoonup> listing_chain list) \<times> world" where
  "listTable host sessionId st table =
     (case st of (allRules, w) \<Rightarrow>
        let (output, w) = executeCommand host w sessionId
                            (js ''sudo iptables -t '' @ table @ js '' -L -n -v --line-numbers'')
        in (case bindE output parseIptablesOutput of
              Inr parsedChains \<Rightarrow> (setProp allRules table parsedChains, w)
            | Inl error \<Rightarrow> (setProp allRules table [], w)))"

definition listAllRules ::
  "remote \<Rightarrow> world \<Rightarrow> session \<Rightarrow> (js_error + (jsstring \<rightharpoonup> listing_chain list)) \<times> world" where
  "listAllRules host w sessionId =
     (let tables = [js ''filter'', js ''nat'', js ''raw'', js ''mangle''];
          (allRules, w) = foldl (listTable host sessionId) (Map.empty, w) tables
      in (Inr allRules, w))"

definition listRules ::
  "remote \<Rightarrow> world \<Rightarrow> session \<Rightarrow> jsval \<Rightarrow> (js_error + listing_chain list) \<times> world" where
  "listRules host w sessionId table =
     (let table = orDefault table (js ''filter'');
          (output, w) = executeCommand host w sessionId
                          (js ''sudo iptables -t '' @ toStr table @ js '' -L -n -v --line-numbers'')
      in (bindE output parseIptablesOutput, w))"

definition getIptablesSave ::
  "remote \<Rightarrow> world \<Rightarrow> session \<Rightarrow> (js_error + (jsstring \<rightharpoonup> save_chain list)) \<times> world" where
  "getIptablesSave host w sessionId =
     (let (output, w) = executeCommand host w sessionId (js ''sudo iptables-save'')
      in (bindE output parseIptablesSave, w))"

text \<open>
  The four operations that change something return \<^verbatim>\<open>{ success: true, message }\<close> with
  a fixed message; the model returns the unit value for it. \<open>rule\<close>, \<open>chainName\<close> and
  \<open>ruleNumber\<close> are the texts the template literal inserts for the arguments.
\<close>

definition addRule ::
  "remote \<Rightarrow> world \<Rightarrow> session \<Rightarrow> jsstring \<Rightarrow> jsval \<Rightarrow> (js_error + unit) \<times> world" where
  "addRule host w sessionId rule table =
     (let table = orDefault table (js ''filter'');
          tableOption = (if table \<noteq> Str (js ''filter'') then js ''-t '' @ toStr table @ js '' '' else []);
          command = js ''sudo iptables '' @ tableOption @ rule;
          (output, w) = executeCommand host w sessionId command
      in (bindE output (\<lambda>_. Inr ()), w))"

definition deleteRule ::
  "remote \<Rightarrow> world \<Rightarrow> session \<Rightarrow> jsstring \<Rightarrow> jsstring \<Rightarrow> jsval \<Rightarrow> (js_error + unit) \<times> world" where
  "deleteRule host w sessionId chainName ruleNumber table =
     (let table = orDefault table (js ''filter'');
          tableOption = (if table \<noteq> Str (js ''filter'') then js ''-t '' @ toStr table @ js '' '' else []);
          command = js ''sudo iptables '' @ tableOption @ js ''-D '' @ chainName @ js '' '' @ ruleNumber;
          (output, w) = executeCommand host w sessionId command
      in (bindE output (\<lambda>_. Inr ()), w))"

definition saveRules :: "remote \<Rightarrow> world \<Rightarrow> session \<Rightarrow> (js_error + unit) \<times> world" where
  "saveRules host w sessionId =
     (let (output, w) = executeCommand host w sessionId
                          (js ''sudo iptables-save > /etc/iptables/rules.v4'')
      in (bindE output (\<lambda>_. Inr ()), w))"

definition restoreRules :: "remote \<Rightarrow> world \<Rightarrow> session \<Rightarrow> (js_error + unit) \<times> world" where
  "restoreRules host w sessionId =
     (let (output, w) = executeCommand host w sessionId
                          (js ''sudo iptables-restore < /etc/iptables/rules.v4'')
      in (bindE output (\<lambda>_. Inr ()), w))"

section \<open>Notions used to state the properties\<close>

text \<open>
  A well-formed chain header of the listing format: a line that starts with \<^verbatim>\<open>Chain\<close> and
  in which \<^verbatim>\<open>/Chain (\S+)/\<close> finds a name. \<open>headerName\<close> is that name.
\<close>

definition headerName :: "jsstring \<Rightarrow> jsval option" where
  "headerName line =
     (if startsWith line (js ''Chain'')
      then (case search chainHeader_at line of Some gs \<Rightarrow> Some (gs ! 1) | None \<Rightarrow> None)
      else None)"

text \<open>
  The names of the chains the listing loop holds in a state: those already in \<open>chains\<close>,
  then the chain being read, if there is one.
\<close>

definition openChains :: "listing_chain list \<times> jsval \<times> listing_rule list \<Rightarrow> jsval list" where
  "openChains st =
     (case st of (chs, cur, rs) \<Rightarrow> map chain chs @ (if truthy cur then [cur] else []))"

text \<open>
  The chains declared in the current table section of a dump, read off the text: a
  \<^verbatim>\<open>*\<close> line starts a new section with no chain, and a \<^verbatim>\<open>:\<close> line in which
  \<^verbatim>\<open>/:(\S+)\s+(\S+)/\<close> matches declares the chain of its first group.
\<close>

definition sectionStep :: "jsval list \<Rightarrow> jsstring \<Rightarrow> jsval list" where
  "sectionStep names line =
     (if startsWith line (js ''*'') then []
      else if startsWith line (js '':'')
      then (case search chainDecl_at line of Some gs \<Rightarrow> names @ [gs ! 1] | None \<Rightarrow> names)
      else names)"

definition declaredChains :: "jsstring list \<Rightarrow> jsval list" where
  "declaredChains ls = foldl sectionStep [] ls"



text \<open>
  The positions of the loop of \<open>parseRuleContent\<close>. \<open>takesValue token next\<close> says that the
  iteration at \<open>token\<close> also consumes the following token \<open>next\<close>: a recognised flag always
  does, another token starting with \<^verbatim>\<open>-\<close> does when \<open>next\<close> is a non-empty string that
  does not start with \<^verbatim>\<open>-\<close>. \<open>loopHeads tokens i\<close> lists the indices at which the loop
  body runs, the first token having index \<open>i\<close>.
\<close>

definition takesValue :: "jsstring \<Rightarrow> jsval \<Rightarrow> bool" where
  "takesValue token next =
     (token = js ''-p'' \<or> token = js ''-s'' \<or> token = js ''-d'' \<or> token = js ''--sport'' \<or>
      token = js ''--dport'' \<or> token = js ''-j'' \<or> token = js ''--to-destination'' \<or>
      (startsWith token (js ''-'') \<and> truthy next \<and> \<not> startsWith (toStr next) (js ''-'')))"

fun loopHeads :: "jsstring list \<Rightarrow> nat \<Rightarrow> nat list" where
  "loopHeads [] i = []"
| "loopHeads (token # rest) i =
     i # (if takesValue token (at rest 0) then loopHeads (drop 1 rest) (i + 2)
          else loopHeads rest (i + 1))"

text \<open>
  The listing command of a table, and what \<open>listAllRules\<close> has to store for a table whose
  command ended with \<open>r\<close>: the empty list after a failure, the parsed output otherwise.
\<close>

definition listCommand :: "jsstring \<Rightarrow> jsstring" where
  "listCommand t = js ''sudo iptables -t '' @ t @ js '' -L -n -v --line-numbers''"

definition entryFor :: "js_error + jsstring \<Rightarrow> listing_chain list \<Rightarrow> bool" where
  "entryFor r cs =
     (case r of Inl e \<Rightarrow> cs = [] | Inr output \<Rightarrow> parseIptablesOutput output = Inr cs)"

section \<open>Basic facts\<close>

lemma bindE_Inr [simp]: "bindE (Inr x) f = f x"
  by (simp add: bindE_def)

lemma bindE_Inl [simp]: "bindE (Inl e) f = Inl e"
  by (simp add: bindE_def)

lemma foldE_append: "foldE f (xs @ ys) s = bindE (foldE f xs s) (foldE f ys)"
  by (induction xs arbitrary: s) (simp_all add: bindE_def split: sum.splits)

lemma foldE_total:
  assumes "\<And>s x. \<exists>s'. f s x = Inr s'"
  shows "\<exists>s'. foldE f xs s = Inr s'"
proof (induction xs arbitrary: s)
  case Nil
  show ?case by simp
next
  case (Cons x xs)
  obtain s1 where "f s x = Inr s1" using assms by blast
  with Cons show ?case by simp
qed

lemma foldE_skip:
  assumes "\<And>s. f s x = Inr s"
  shows "foldE f (pre @ x # post) s = foldE f (pre @ post) s"
proof -
  have "foldE f (x # post) = foldE f post"
    by (rule ext) (simp add: assms)
  then show ?thesis
    by (simp add: foldE_append)
qed

lemma search_Some: "search m s = Some r \<Longrightarrow> \<exists>t. m t = Some r"
  by (induction s) (auto split: option.splits)

lemma many1_nonempty: "many1 P s = Some (g, r) \<Longrightarrow> g \<noteq> []"
  by (auto simp: many1_def split: if_splits)

lemma js_star: "js ''*'' = [42]"
  by (simp add: js_def)

lemma js_colon: "js '':'' = [58]"
  by (simp add: js_def)

lemma js_dashA: "js ''-A '' = [45, 65, 32]"
  by (simp add: js_def)

lemma at_Cons_0 [simp]: "at (x # xs) 0 = Str x"
  by (simp add: at_def)

lemma empty_line_prefixes:
  "\<not> startsWith [] (js ''Chain'')"
  "\<not> startsWith [] (js ''*'')"
  "\<not> startsWith [] (js '':'')"
  "\<not> startsWith [] (js ''-A '')"
  by code_simp+

section \<open>The parsers return a value on every input\<close>

lemma parseExtraFields_total: "\<exists>r. parseExtraFields s = Inr r"
  unfolding parseExtraFields_def Let_def
  by (cases "search spt_at s"; cases "search dpt_at s"; cases "search to_at s") simp_all

lemma listingLine_total: "\<exists>st'. listingLine st line = Inr st'"
proof -
  obtain r where r: "parseExtraFields (joinSp (drop 8 (splitWs (trim line)))) = Inr r"
    using parseExtraFields_total by blast
  obtain chs cur rs where st: "st = (chs, cur, rs)"
    by (cases st) auto
  show ?thesis
    by (cases "search chainHeader_at line") (simp_all add: listingLine_def Let_def r st)
qed

lemma parseIptablesOutput_total: "\<exists>cs. parseIptablesOutput s = Inr cs"
proof -
  obtain st where "foldE listingLine (splitLines s) ([], Null, []) = Inr st"
    using foldE_total [of listingLine] listingLine_total by blast
  then show ?thesis
    by (simp add: parseIptablesOutput_def split_beta)
qed

lemma parseTokens_total: "\<exists>p. parseTokens ts p0 = Inr p"
proof (induction ts p0 rule: parseTokens.induct)
  case (1 p0)
  show ?case by simp
next
  case (2 token rest p0)
  have paired: "\<exists>b. (if truthy (at rest 0)
               then bindE (startsWithV (at rest 0) (js ''-'')) (\<lambda>b. Inr (\<not> b))
               else Inr False) = Inr b"
    by (cases "at rest 0") auto
  then obtain b where b: "(if truthy (at rest 0)
               then bindE (startsWithV (at rest 0) (js ''-'')) (\<lambda>b. Inr (\<not> b))
               else Inr False) = Inr b" ..
  show ?case
    using 2 b by (simp del: One_nat_def)
qed

lemma parseRuleContent_total: "\<exists>p. parseRuleContent (Str s) = Inr p"
  by (simp add: parseRuleContent_def parseTokens_total)

lemma appendRule_at_shape:
  "appendRule_at t = Some gs \<Longrightarrow> \<exists>w g1 g2. gs = [Str w, Str g1, Str g2]"
  by (simp add: appendRule_at_def many_def split: option.splits prod.splits) blast

lemma appendRule_search_shape:
  assumes "search appendRule_at line = Some gs"
  shows "\<exists>w g1 g2. gs = [Str w, Str g1, Str g2]"
proof -
  from assms have "\<exists>t. appendRule_at t = Some gs" by (rule search_Some)
  then show ?thesis using appendRule_at_shape by blast
qed

lemma chainDecl_at_shape:
  "chainDecl_at t = Some gs \<Longrightarrow> \<exists>w g1 g2. gs = [Str w, Str g1, Str g2]"
  by (simp add: chainDecl_at_def split: option.splits prod.splits) blast

lemma chainDecl_search_shape:
  assumes "search chainDecl_at line = Some gs"
  shows "\<exists>w g1 g2. gs = [Str w, Str g1, Str g2]"
proof -
  from assms have "\<exists>t. chainDecl_at t = Some gs" by (rule search_Some)
  then show ?thesis using chainDecl_at_shape by blast
qed

lemma chainHeader_at_shape:
  "chainHeader_at t = Some gs \<Longrightarrow> \<exists>w g. gs = [Str w, Str g] \<and> g \<noteq> []"
  by (auto simp: chainHeader_at_def split: option.splits dest: many1_nonempty)

lemma chainHeader_search_shape:
  assumes "search chainHeader_at line = Some gs"
  shows "\<exists>w g. gs = [Str w, Str g] \<and> g \<noteq> []"
proof -
  from assms have "\<exists>t. chainHeader_at t = Some gs" by (rule search_Some)
  then show ?thesis using chainHeader_at_shape by blast
qed

lemma saveLine_total: "\<exists>st'. saveLine st line = Inr st'"
proof -
  obtain tbl cur ccs where st: "st = (tbl, cur, ccs)"
    by (cases st) auto
  have "\<exists>st'. saveLine (tbl, cur, ccs) line = Inr st'"
  proof (cases "search appendRule_at line")
    case None
    then show ?thesis
      by (cases "search chainDecl_at line") (simp_all add: saveLine_def Let_def)
  next
    case (Some gs)
    then have "\<exists>t. appendRule_at t = Some gs" by (rule search_Some)
    then obtain t where "appendRule_at t = Some gs" ..
    then obtain w g1 g2 where "gs = [Str w, Str g1, Str g2]"
      using appendRule_at_shape by blast
    with Some have m: "search appendRule_at line = Some [Str w, Str g1, Str g2]"
      by simp
    obtain p where p: "parseRuleContent (Str g2) = Inr p"
      using parseRuleContent_total by blast
    from m p show ?thesis
      by (cases "search chainDecl_at line") (simp_all add: saveLine_def Let_def)
  qed
  with st show ?thesis by simp
qed

lemma parseIptablesSave_total: "\<exists>m. parseIptablesSave s = Inr m"
proof -
  obtain st where "foldE saveLine (splitLines s) (Map.empty, Null, []) = Inr st"
    using foldE_total [of saveLine] saveLine_total by blast
  then show ?thesis
    by (simp add: parseIptablesSave_def split_beta)
qed

section \<open>The chains of a listing\<close>

lemma listingLine_names:
  assumes "listingLine st line = Inr st'"
  shows "openChains st' = openChains st @ (case headerName line of Some n \<Rightarrow> [n] | None \<Rightarrow> [])"
proof -
  obtain chs cur rs where st: "st = (chs, cur, rs)" by (cases st) auto
  show ?thesis
  proof (cases "startsWith line (js ''Chain'')")
    case True
    show ?thesis
    proof (cases "search chainHeader_at line")
      case None
      with True assms show ?thesis
        by (auto simp: listingLine_def st Let_def openChains_def headerName_def)
    next
      case (Some gs)
      then obtain w g where "gs = [Str w, Str g]" "g \<noteq> []"
        using chainHeader_search_shape by blast
      with Some have m: "search chainHeader_at line = Some [Str w, Str g]" by simp
      from m True assms \<open>g \<noteq> []\<close> show ?thesis
        by (auto simp: listingLine_def st Let_def openChains_def headerName_def)
    qed
  next
    case False
    obtain r where r: "parseExtraFields (joinSp (drop 8 (splitWs (trim line)))) = Inr r"
      using parseExtraFields_total by blast
    from False assms show ?thesis
      by (auto simp: listingLine_def st Let_def openChains_def headerName_def r split: if_splits)
  qed
qed

lemma foldE_listing_names:
  "foldE listingLine ls st = Inr st' \<Longrightarrow>
   openChains st' = openChains st @ List.map_filter headerName ls"
proof (induction ls arbitrary: st)
  case Nil
  then show ?case by (simp add: List.map_filter_simps)
next
  case (Cons l ls)
  obtain st1 where st1: "listingLine st l = Inr st1"
    using listingLine_total by blast
  with Cons.prems have "foldE listingLine ls st1 = Inr st'" by simp
  then have "openChains st' = openChains st1 @ List.map_filter headerName ls"
    by (rule Cons.IH)
  with listingLine_names [OF st1] show ?case
    by (simp add: List.map_filter_simps split: option.splits)
qed

lemma parseIptablesOutput_names:
  assumes "parseIptablesOutput out = Inr cs"
  shows "map chain cs = List.map_filter headerName (splitLines out)"
proof -
  obtain st where st: "foldE listingLine (splitLines out) ([], Null, []) = Inr st"
    using foldE_total [of listingLine] listingLine_total by blast
  obtain chs cur rs where [simp]: "st = (chs, cur, rs)" by (cases st) auto
  from assms st have "cs = (if truthy cur then chs @ [\<lparr>chain = cur, rules = rs\<rparr>] else chs)"
    by (simp add: parseIptablesOutput_def)
  then have "map chain cs = openChains st"
    by (simp add: openChains_def)
  with foldE_listing_names [OF st] show ?thesis
    by (simp add: openChains_def)
qed

lemma ruleLine_not_header:
  assumes "ruleNumber_match line \<noteq> None"
  shows "\<not> startsWith line (js ''Chain'')"
proof
  assume "startsWith line (js ''Chain'')"
  then obtain rest where line: "line = 67 # rest"
    by (cases line) (auto simp: startsWith_def js_def)
  have "\<not> isSpace 67" "\<not> isDigit 67"
    by (simp_all add: isSpace_def isDigit_def)
  then have "ruleNumber_match line = None"
    by (simp add: ruleNumber_match_def many_def many1_def line)
  with assms show False by simp
qed

lemma short_rule_line_skipped:
  assumes "ruleNumber_match line \<noteq> None" and "length (splitWs (trim line)) < 8"
  shows "listingLine st line = Inr st"
  using assms ruleLine_not_header [OF assms(1)]
  by (cases st) (simp add: listingLine_def Let_def)

section \<open>The sections of a dump\<close>

lemma pushRule_names [simp]: "map chain (pushRule n r cs) = map chain cs"
  by (induction cs) simp_all

lemma append_line_not_other:
  assumes "startsWith line (js ''-A '')"
  shows "\<not> startsWith line (js ''*'')" and "\<not> startsWith line (js '':'')"
  using assms by (cases line; auto simp: js_star js_colon js_dashA startsWith_def)+

lemma saveLine_header:
  "startsWith line (js ''*'') \<Longrightarrow>
   saveLine (t, c, cc) line =
     Inr (if truthy c then setProp t (toStr c) cc else t, Str (drop 1 line), [])"
  by (simp add: saveLine_def)



lemma saveLine_names:
  assumes "saveLine (t, c, cc) line = Inr (t', c', cc')"
  shows "map chain cc' = sectionStep (map chain cc) line"
proof (cases "startsWith line (js ''*'')")
  case True
  with assms show ?thesis by (simp add: saveLine_header sectionStep_def)
next
  case star: False
  show ?thesis
  proof (cases "startsWith line (js '':'')")
    case True
    show ?thesis
    proof (cases "search chainDecl_at line")
      case None
      with star True assms show ?thesis
        by (auto simp: saveLine_def sectionStep_def)
    next
      case (Some gs)
      then obtain w g1 g2 where "gs = [Str w, Str g1, Str g2]"
        using chainDecl_search_shape by blast
      with Some have m: "search chainDecl_at line = Some [Str w, Str g1, Str g2]" by simp
      from m star True assms show ?thesis
        by (auto simp: saveLine_def sectionStep_def)
    qed
  next
    case colon: False
    show ?thesis
    proof (cases "search appendRule_at line")
      case None
      with star colon assms show ?thesis
        by (auto simp: saveLine_def sectionStep_def Let_def split: if_splits)
    next
      case (Some gs)
      then obtain w g1 g2 where "gs = [Str w, Str g1, Str g2]"
        using appendRule_search_shape by blast
      with Some have m: "search appendRule_at line = Some [Str w, Str g1, Str g2]" by simp
      obtain p where p: "parseRuleContent (Str g2) = Inr p"
        using parseRuleContent_total by blast
      from m p star colon assms show ?thesis
        by (auto simp: saveLine_def sectionStep_def Let_def split: if_splits)
    qed
  qed
qed

lemma foldE_saveLine_names:
  "foldE saveLine ls (t, c, cc) = Inr (t', c', cc') \<Longrightarrow>
   map chain cc' = foldl sectionStep (map chain cc) ls"
proof (induction ls arbitrary: t c cc)
  case Nil
  then show ?case by simp
next
  case (Cons l ls)
  obtain st1 where "saveLine (t, c, cc) l = Inr st1"
    using saveLine_total by blast
  then obtain t1 c1 cc1 where st1: "saveLine (t, c, cc) l = Inr (t1, c1, cc1)"
    by (cases st1) auto
  with Cons.prems have "foldE saveLine ls (t1, c1, cc1) = Inr (t', c', cc')" by simp
  then have "map chain cc' = foldl sectionStep (map chain cc1) ls" by (rule Cons.IH)
  with saveLine_names [OF st1] show ?case by simp
qed

lemma undeclared_dropped:
  assumes "startsWith line (js ''-A '')"
    and "search appendRule_at line = Some gs"
    and "gs ! 1 \<notin> set (map chain cc)"
  shows "saveLine (t, c, cc) line = Inr (t, c, cc)"
proof -
  obtain w g1 g2 where gs: "gs = [Str w, Str g1, Str g2]"
    using assms(2) appendRule_search_shape by blast
  with assms(2) have m: "search appendRule_at line = Some [Str w, Str g1, Str g2]" by simp
  from assms(3) gs have "find (\<lambda>c. chain c = Str g1) cc = None"
    by (force simp: find_None_iff)
  with m assms(1) append_line_not_other [OF assms(1)] show ?thesis
    by (simp add: saveLine_def Let_def)
qed














section \<open>The loop over the tokens of a rule\<close>

lemma flags_dash:
  "startsWith (js ''-p'') (js ''-'')" "startsWith (js ''-s'') (js ''-'')"
  "startsWith (js ''-d'') (js ''-'')" "startsWith (js ''--sport'') (js ''-'')"
  "startsWith (js ''--dport'') (js ''-'')" "startsWith (js ''-j'') (js ''-'')"
  "startsWith (js ''--to-destination'') (js ''-'')"
  by code_simp+

lemma takesValue_dash: "takesValue token next \<Longrightarrow> startsWith token (js ''-'')"
  by (auto simp: takesValue_def flags_dash)

lemma parseTokens_Cons2:
  "parseTokens (token # r0 # xs) p =
     (if token = js ''-p'' then parseTokens xs (p\<lparr>protocol := Str r0\<rparr>)
      else if token = js ''-s'' then parseTokens xs (p\<lparr>source' := Str r0\<rparr>)
      else if token = js ''-d'' then parseTokens xs (p\<lparr>destination' := Str r0\<rparr>)
      else if token = js ''--sport'' then parseTokens xs (p\<lparr>sport := Str r0\<rparr>)
      else if token = js ''--dport'' then parseTokens xs (p\<lparr>dport := Str r0\<rparr>)
      else if token = js ''-j'' then parseTokens xs (p\<lparr>target' := Str r0\<rparr>)
      else if token = js ''--to-destination'' then parseTokens xs (p\<lparr>toDestination' := Str r0\<rparr>)
      else if startsWith token (js ''-'') then
        (if r0 \<noteq> [] \<and> \<not> startsWith r0 (js ''-'')
         then parseTokens xs (p\<lparr>other := other p @ [token @ js '' '' @ r0]\<rparr>)
         else parseTokens (r0 # xs) (p\<lparr>other := other p @ [token]\<rparr>))
      else parseTokens (r0 # xs) p)"
  by (subst parseTokens.simps(2)) (simp del: parseTokens.simps(2))

lemma skip_step:
  assumes "\<not> startsWith token (js ''-'')"
  shows "parseTokens (token # rest) p = parseTokens rest p"
proof -
  from assms have "\<not> takesValue token (at rest 0)" using takesValue_dash by blast
  with assms show ?thesis
    by (subst parseTokens.simps(2)) (simp add: takesValue_def del: parseTokens.simps(2))
qed

lemma paired_step:
  assumes "takesValue token (Str r0)"
  shows "\<exists>p'. \<forall>xs. parseTokens (token # r0 # xs) p = parseTokens xs p'"
proof -
  define q where "q =
     (if token = js ''-p'' then p\<lparr>protocol := Str r0\<rparr>
      else if token = js ''-s'' then p\<lparr>source' := Str r0\<rparr>
      else if token = js ''-d'' then p\<lparr>destination' := Str r0\<rparr>
      else if token = js ''--sport'' then p\<lparr>sport := Str r0\<rparr>
      else if token = js ''--dport'' then p\<lparr>dport := Str r0\<rparr>
      else if token = js ''-j'' then p\<lparr>target' := Str r0\<rparr>
      else if token = js ''--to-destination'' then p\<lparr>toDestination' := Str r0\<rparr>
      else p\<lparr>other := other p @ [token @ js '' '' @ r0]\<rparr>)"
  have "parseTokens (token # r0 # xs) p = parseTokens xs q" for xs
    using assms
    by (auto simp: parseTokens_Cons2 q_def takesValue_def flags_dash simp del: parseTokens.simps(2))
  then show ?thesis by blast
qed

lemma unpaired_step:
  assumes "startsWith token (js ''-'')" and "\<not> takesValue token (Str r0)"
  shows "\<exists>p'. \<forall>xs. parseTokens (token # r0 # xs) p = parseTokens (r0 # xs) p'"
  using assms
  by (auto simp: parseTokens_Cons2 takesValue_def simp del: parseTokens.simps(2))

lemma discard_at:
  assumes "j < length ts"
    and "\<not> startsWith (ts ! j) (js ''-'')"
    and "\<not> (0 < j \<and> i + j - 1 \<in> set (loopHeads ts i) \<and> startsWith (ts ! (j - 1)) (js ''-''))"
  shows "parseTokens (take j ts @ drop (Suc j) ts) p = parseTokens ts p"
  using assms
proof (induction ts i arbitrary: j p rule: loopHeads.induct)
  case (1 i)
  then show ?case by simp
next
  case (2 token rest i)
  show ?case
  proof (cases j)
    case 0
    with "2.prems"(2) show ?thesis
      by (simp add: skip_step del: parseTokens.simps(2))
  next
    case (Suc j')
    with "2.prems"(1) have j': "j' < length rest" by simp
    then obtain r0 rest' where rest: "rest = r0 # rest'" by (cases rest) auto
    from "2.prems"(2) Suc have nd: "\<not> startsWith (rest ! j') (js ''-'')" by simp
    from "2.prems"(3) Suc
    have before: "\<not> (i + j' \<in> set (loopHeads (token # rest) i) \<and>
                     startsWith ((token # rest) ! j') (js ''-''))"
      by simp
    have removed: "take j (token # rest) @ drop (Suc j) (token # rest) =
                   token # (take j' rest @ drop (Suc j') rest)"
      by (simp add: Suc)
    show ?thesis
    proof (cases "startsWith token (js ''-'')")
      case False
      then have ntv: "\<not> takesValue token (at rest 0)" using takesValue_dash by blast
      have "\<not> (0 < j' \<and> i + 1 + j' - 1 \<in> set (loopHeads rest (i + 1)) \<and>
                startsWith (rest ! (j' - 1)) (js ''-''))"
        using before ntv by (cases j') auto
      from "2.IH"(2) [OF ntv j' nd this]
      have "parseTokens (take j' rest @ drop (Suc j') rest) p = parseTokens rest p" .
      then show ?thesis
        by (simp only: removed skip_step [OF False])
    next
      case True
      with before have "j' \<noteq> 0" by (cases j') auto
      then obtain j'' where j'': "j' = Suc j''" by (cases j') auto
      have removed': "take j' rest @ drop (Suc j') rest = r0 # (take j'' rest' @ drop (Suc j'') rest')"
        by (simp add: rest j'')
      show ?thesis
      proof (cases "takesValue token (Str r0)")
        case tv: True
        then have tv': "takesValue token (at rest 0)" by (simp add: rest)
        obtain p' where p': "\<And>xs. parseTokens (token # r0 # xs) p = parseTokens xs p'"
          using paired_step [OF tv] by blast
        have a: "j'' < length (drop 1 rest)" using j' by (simp add: rest j'')
        have b: "\<not> startsWith (drop 1 rest ! j'') (js ''-'')" using nd by (simp add: rest j'')
        have c: "\<not> (0 < j'' \<and> i + 2 + j'' - 1 \<in> set (loopHeads (drop 1 rest) (i + 2)) \<and>
                startsWith (drop 1 rest ! (j'' - 1)) (js ''-''))"
          using before tv' by (cases j'') (auto simp: rest j'')
        from "2.IH"(1) [OF tv' a b c]
        have ih: "parseTokens (take j'' rest' @ drop (Suc j'') rest') p' = parseTokens rest' p'"
          by (simp add: rest)
        have "parseTokens (take j (token # rest) @ drop (Suc j) (token # rest)) p =
              parseTokens (token # r0 # (take j'' rest' @ drop (Suc j'') rest')) p"
          by (simp only: removed removed')
        also have "\<dots> = parseTokens (take j'' rest' @ drop (Suc j'') rest') p'" by (rule p')
        also have "\<dots> = parseTokens rest' p'" by (rule ih)
        also have "\<dots> = parseTokens (token # r0 # rest') p" by (rule p' [symmetric])
        finally show ?thesis by (simp only: rest)
      next
        case ntv: False
        then have ntv': "\<not> takesValue token (at rest 0)" by (simp add: rest)
        obtain p' where p': "\<And>xs. parseTokens (token # r0 # xs) p = parseTokens (r0 # xs) p'"
          using unpaired_step [OF True ntv] by blast
        have c: "\<not> (0 < j' \<and> i + 1 + j' - 1 \<in> set (loopHeads rest (i + 1)) \<and>
                startsWith (rest ! (j' - 1)) (js ''-''))"
          using before ntv' by (auto simp: j'')
        from "2.IH"(2) [OF ntv' j' nd c]
        have ih0: "parseTokens (take j' rest @ drop (Suc j') rest) p' = parseTokens rest p'" .
        have ih: "parseTokens (r0 # (take j'' rest' @ drop (Suc j'') rest')) p' =
                  parseTokens (r0 # rest') p'"
          using ih0 [unfolded removed'] by (simp only: rest)
        have "parseTokens (take j (token # rest) @ drop (Suc j) (token # rest)) p =
              parseTokens (token # r0 # (take j'' rest' @ drop (Suc j'') rest')) p"
          by (simp only: removed removed')
        also have "\<dots> = parseTokens (r0 # (take j'' rest' @ drop (Suc j'') rest')) p'"
          by (rule p')
        also have "\<dots> = parseTokens (r0 # rest') p'" by (rule ih)
        also have "\<dots> = parseTokens (token # r0 # rest') p" by (rule p' [symmetric])
        finally show ?thesis by (simp only: rest)
      qed
    qed
  qed
qed

section \<open>Commands and tables\<close>

lemma executeCommand_world:
  "snd (executeCommand host w sid cmd) =
     (case connections w sid of None \<Rightarrow> w | Some c \<Rightarrow> w\<lparr>sent := sent w @ [(c, cmd)]\<rparr>)"
  by (simp add: executeCommand_def split: option.splits)

lemma executeCommand_connections:
  "connections (snd (executeCommand host w sid cmd)) = connections w"
  by (simp add: executeCommand_world split: option.splits)

lemma listTable_world:
  "snd (listTable host sid st t) =
     snd (executeCommand host (snd st) sid
            (js ''sudo iptables -t '' @ t @ js '' -L -n -v --line-numbers''))"
  by (simp add: listTable_def split_beta Let_def split: sum.splits)

lemma listTable_rules:
  "fst (listTable host sid st t) =
     setProp (fst st) t
       (case bindE (fst (executeCommand host (snd st) sid
                      (js ''sudo iptables -t '' @ t @ js '' -L -n -v --line-numbers'')))
               parseIptablesOutput of
          Inr parsedChains \<Rightarrow> parsedChains | Inl error \<Rightarrow> [])"
  by (simp add: listTable_def split_beta Let_def split: sum.splits)

lemma table_names:
  "js ''filter'' \<noteq> js ''__proto__''" "js ''nat'' \<noteq> js ''__proto__''"
  "js ''raw'' \<noteq> js ''__proto__''" "js ''mangle'' \<noteq> js ''__proto__''"
  by code_simp+

lemma entry_exists:
  "\<exists>cs. entryFor r cs \<and>
     (case bindE r parseIptablesOutput of Inr parsedChains \<Rightarrow> parsedChains | Inl error \<Rightarrow> []) = cs"
proof (cases r)
  case (Inl e)
  then show ?thesis by (simp add: entryFor_def)
next
  case (Inr out)
  obtain cs where "parseIptablesOutput out = Inr cs"
    using parseIptablesOutput_total by blast
  with Inr show ?thesis by (simp add: entryFor_def)
qed

lemma listTable_entry:
  assumes "t \<noteq> js ''__proto__''"
  shows "\<exists>cs. entryFor (fst (executeCommand host w sid (listCommand t))) cs \<and>
           listTable host sid (m, w) t =
             (m(t \<mapsto> cs), snd (executeCommand host w sid (listCommand t)))"
proof -
  obtain cs where cs: "entryFor (fst (executeCommand host w sid (listCommand t))) cs"
    "(case bindE (fst (executeCommand host w sid (listCommand t))) parseIptablesOutput of
        Inr parsedChains \<Rightarrow> parsedChains | Inl error \<Rightarrow> []) = cs"
    using entry_exists by blast
  have "fst (listTable host sid (m, w) t) = m(t \<mapsto> cs)"
    using cs(2) assms by (simp add: listTable_rules setProp_def listCommand_def)
  moreover have "snd (listTable host sid (m, w) t) = snd (executeCommand host w sid (listCommand t))"
    by (simp add: listTable_world listCommand_def)
  ultimately show ?thesis using cs(1) by (metis prod.collapse)
qed

section \<open>The claims\<close>

subsection \<open>C1: the dump example\<close>

lemma dumpExample_lines:
  "splitLines (js ''*filter'' @ [10] @ js '':INPUT ACCEPT [0:0]'' @ [10] @
               js ''-A INPUT -p tcp --dport 22 -j ACCEPT'' @ [10] @ js ''COMMIT'' @ [10]) =
     [js ''*filter'', js '':INPUT ACCEPT [0:0]'', js ''-A INPUT -p tcp --dport 22 -j ACCEPT'',
      js ''COMMIT'', []]"
  by code_simp

lemma dumpExample_prefixes:
  "startsWith (js ''*filter'') (js ''*'')"
  "\<not> startsWith (js '':INPUT ACCEPT [0:0]'') (js ''*'')"
  "startsWith (js '':INPUT ACCEPT [0:0]'') (js '':'')"
  "\<not> startsWith (js ''-A INPUT -p tcp --dport 22 -j ACCEPT'') (js ''*'')"
  "\<not> startsWith (js ''-A INPUT -p tcp --dport 22 -j ACCEPT'') (js '':'')"
  "startsWith (js ''-A INPUT -p tcp --dport 22 -j ACCEPT'') (js ''-A '')"
  "\<not> startsWith (js ''COMMIT'') (js ''*'')"
  "\<not> startsWith (js ''COMMIT'') (js '':'')"
  "\<not> startsWith (js ''COMMIT'') (js ''-A '')"
  "\<not> startsWith [] (js ''*'')"
  "\<not> startsWith [] (js '':'')"
  "\<not> startsWith [] (js ''-A '')"
  by code_simp+

lemma dumpExample_matches:
  "search chainDecl_at (js '':INPUT ACCEPT [0:0]'') =
     Some [Str (js '':INPUT ACCEPT''), Str (js ''INPUT''), Str (js ''ACCEPT'')]"
  "search appendRule_at (js ''-A INPUT -p tcp --dport 22 -j ACCEPT'') =
     Some [Str (js ''-A INPUT -p tcp --dport 22 -j ACCEPT''), Str (js ''INPUT''),
           Str (js ''-p tcp --dport 22 -j ACCEPT'')]"
  "parseRuleContent (Str (js ''-p tcp --dport 22 -j ACCEPT'')) =
     Inr \<lparr>protocol = Str (js ''tcp''), source' = Null, destination' = Null, sport = Null,
          dport = Str (js ''22''), target' = Str (js ''ACCEPT''), toDestination' = Null,
          other = []\<rparr>"
  "drop (Suc 0) (js ''*filter'') = js ''filter''"
  "js ''filter'' \<noteq> js ''__proto__''"
  "js ''filter'' \<noteq> []"
  by code_simp+

text \<open>
  Claim C1. For the dump \<^verbatim>\<open>*filter\<close>, \<^verbatim>\<open>:INPUT ACCEPT [0:0]\<close>,
  \<^verbatim>\<open>-A INPUT -p tcp --dport 22 -j ACCEPT\<close>, \<^verbatim>\<open>COMMIT\<close> (each line ended by a newline),
  \<open>parseIptablesSave\<close> returns the map whose only key is \<^verbatim>\<open>filter\<close>, bound to the single
  chain \<^verbatim>\<open>INPUT\<close> with policy \<^verbatim>\<open>ACCEPT\<close> and a single rule: its content is
  \<^verbatim>\<open>-p tcp --dport 22 -j ACCEPT\<close>, and its parsed form has protocol \<^verbatim>\<open>tcp\<close>, destination
  port \<^verbatim>\<open>22\<close>, target \<^verbatim>\<open>ACCEPT\<close>, an empty \<^verbatim>\<open>other\<close> and every other field \<^verbatim>\<open>null\<close>.
\<close>

theorem parseIptablesSave_example:
  "parseIptablesSave
     (js ''*filter'' @ [10] @ js '':INPUT ACCEPT [0:0]'' @ [10] @
      js ''-A INPUT -p tcp --dport 22 -j ACCEPT'' @ [10] @ js ''COMMIT'' @ [10]) =
   Inr [js ''filter'' \<mapsto>
     [\<lparr>chain = Str (js ''INPUT''),
       rules = [\<lparr>raw = js ''-A INPUT -p tcp --dport 22 -j ACCEPT'',
                 content = Str (js ''-p tcp --dport 22 -j ACCEPT''),
                 parsed = \<lparr>protocol = Str (js ''tcp''), source' = Null, destination' = Null,
                            sport = Null, dport = Str (js ''22''), target' = Str (js ''ACCEPT''),
                            toDestination' = Null, other = []\<rparr>\<rparr>],
       policy = Str (js ''ACCEPT'')\<rparr>]]"
  unfolding parseIptablesSave_def dumpExample_lines
  by (simp add: saveLine_def dumpExample_prefixes dumpExample_matches bindE_def setProp_def)

subsection \<open>C2: the examples of the extra column\<close>

text \<open>
  Claim C2. \<open>parseExtraFields\<close> on \<^verbatim>\<open>tcp dpt:19070 to:192.168.127.70:9001\<close> gives the
  destination port \<^verbatim>\<open>19070\<close>, the NAT address \<^verbatim>\<open>192.168.127.70\<close>, the NAT port \<^verbatim>\<open>9001\<close>
  and the combined \<^verbatim>\<open>192.168.127.70:9001\<close>, with no source port; on
  \<^verbatim>\<open>udp dpts:5000:6000\<close> it gives the destination port \<^verbatim>\<open>5000:6000\<close> and nothing else;
  on the empty string it leaves every field \<^verbatim>\<open>null\<close>. None of the three calls throws.
\<close>

theorem parseExtraFields_examples:
  "parseExtraFields (js ''tcp dpt:19070 to:192.168.127.70:9001'') =
     Inr \<lparr>sourcePort = Null, destPort = Str (js ''19070''),
          toDestIP = Str (js ''192.168.127.70''), toDestPort = Str (js ''9001''),
          toDestination = Str (js ''192.168.127.70:9001'')\<rparr>
   \<and> parseExtraFields (js ''udp dpts:5000:6000'') =
     Inr \<lparr>sourcePort = Null, destPort = Str (js ''5000:6000''),
          toDestIP = Null, toDestPort = Null, toDestination = Null\<rparr>
   \<and> parseExtraFields [] =
     Inr \<lparr>sourcePort = Null, destPort = Null,
          toDestIP = Null, toDestPort = Null, toDestination = Null\<rparr>"
  by code_simp

subsection \<open>C3: one chain per well-formed header\<close>

text \<open>
  Claim C3. For every listing text, \<open>parseIptablesOutput\<close> returns one chain for each
  well-formed chain header, in the order of the headers: the names of the chains returned
  are the names of the headers, line by line, so with \<open>N\<close> such headers there are exactly
  \<open>N\<close> chains. A rule line (one that \<^verbatim>\<open>/^\s*\d+/\<close> matches) with fewer than 8 tokens is
  discarded: the text without that line gives the same result, hence the same number of
  chains.
\<close>

theorem listing_chain_count:
  "(\<exists>cs. parseIptablesOutput out = Inr cs
        \<and> map chain cs = List.map_filter headerName (splitLines out)
        \<and> length cs = length (filter (\<lambda>l. headerName l \<noteq> None) (splitLines out)))
   \<and> (splitLines out = pre @ line # post \<and> splitLines out' = pre @ post
        \<and> ruleNumber_match line \<noteq> None \<and> length (splitWs (trim line)) < 8
      \<longrightarrow> parseIptablesOutput out' = parseIptablesOutput out)"
proof (intro conjI impI)
  obtain cs where cs: "parseIptablesOutput out = Inr cs"
    using parseIptablesOutput_total by blast
  have names: "map chain cs = List.map_filter headerName (splitLines out)"
    using cs by (rule parseIptablesOutput_names)
  have "length (List.map_filter headerName ls) = length (filter (\<lambda>l. headerName l \<noteq> None) ls)" for ls
    by (induction ls) (auto simp: List.map_filter_simps split: option.splits)
  with names have "length cs = length (filter (\<lambda>l. headerName l \<noteq> None) (splitLines out))"
    by (metis length_map)
  with cs names show "\<exists>cs. parseIptablesOutput out = Inr cs
        \<and> map chain cs = List.map_filter headerName (splitLines out)
        \<and> length cs = length (filter (\<lambda>l. headerName l \<noteq> None) (splitLines out))"
    by blast
next
  assume a: "splitLines out = pre @ line # post \<and> splitLines out' = pre @ post
        \<and> ruleNumber_match line \<noteq> None \<and> length (splitWs (trim line)) < 8"
  then have skip: "\<And>s. listingLine s line = Inr s"
    using short_rule_line_skipped by blast
  show "parseIptablesOutput out' = parseIptablesOutput out"
    using a by (simp add: parseIptablesOutput_def foldE_skip [of listingLine, OF skip])
qed

theorem listing_chain_count_witness:
  "splitLines (js ''Chain INPUT (policy ACCEPT)'' @ [10] @ js ''1 2 3'' @ [10] @
               js ''Chain FORWARD (policy DROP)'') =
     [js ''Chain INPUT (policy ACCEPT)''] @ js ''1 2 3'' # [js ''Chain FORWARD (policy DROP)'']
   \<and> splitLines (js ''Chain INPUT (policy ACCEPT)'' @ [10] @ js ''Chain FORWARD (policy DROP)'') =
     [js ''Chain INPUT (policy ACCEPT)''] @ [js ''Chain FORWARD (policy DROP)'']
   \<and> ruleNumber_match (js ''1 2 3'') \<noteq> None
   \<and> length (splitWs (trim (js ''1 2 3''))) < 8
   \<and> parseIptablesOutput (js ''Chain INPUT (policy ACCEPT)'' @ [10] @
                           js ''Chain FORWARD (policy DROP)'') =
     parseIptablesOutput (js ''Chain INPUT (policy ACCEPT)'' @ [10] @ js ''1 2 3'' @ [10] @
                          js ''Chain FORWARD (policy DROP)'')
   \<and> (\<exists>cs. parseIptablesOutput (js ''Chain INPUT (policy ACCEPT)'' @ [10] @ js ''1 2 3'' @ [10] @
                                  js ''Chain FORWARD (policy DROP)'') = Inr cs
          \<and> map chain cs = [Str (js ''INPUT''), Str (js ''FORWARD'')])"
proof -
  have h: "splitLines (js ''Chain INPUT (policy ACCEPT)'' @ [10] @ js ''1 2 3'' @ [10] @
               js ''Chain FORWARD (policy DROP)'') =
     [js ''Chain INPUT (policy ACCEPT)''] @ js ''1 2 3'' # [js ''Chain FORWARD (policy DROP)'']
   \<and> splitLines (js ''Chain INPUT (policy ACCEPT)'' @ [10] @ js ''Chain FORWARD (policy DROP)'') =
     [js ''Chain INPUT (policy ACCEPT)''] @ [js ''Chain FORWARD (policy DROP)'']
   \<and> ruleNumber_match (js ''1 2 3'') \<noteq> None
   \<and> length (splitWs (trim (js ''1 2 3''))) < 8"
    by code_simp
  have n: "List.map_filter headerName
             (splitLines (js ''Chain INPUT (policy ACCEPT)'' @ [10] @ js ''1 2 3'' @ [10] @
                          js ''Chain FORWARD (policy DROP)'')) =
           [Str (js ''INPUT''), Str (js ''FORWARD'')]"
    by code_simp
  show ?thesis
    using h n
      listing_chain_count [of "js ''Chain INPUT (policy ACCEPT)'' @ [10] @ js ''1 2 3'' @ [10] @
               js ''Chain FORWARD (policy DROP)''" "[js ''Chain INPUT (policy ACCEPT)'']"
               "js ''1 2 3''" "[js ''Chain FORWARD (policy DROP)'']"
               "js ''Chain INPUT (policy ACCEPT)'' @ [10] @ js ''Chain FORWARD (policy DROP)''"]
    by metis
qed

subsection \<open>C4: the literal commands\<close>

text \<open>
  Claim C4. On a session that has a connection \<open>c\<close>, each operation hands exactly one
  command to that connection (\<open>listAllRules\<close>: one per table, in the order filter, nat,
  raw, mangle), and the command is the literal template: the listing always carries
  \<^verbatim>\<open>-t <table>\<close>; \<open>addRule\<close> and \<open>deleteRule\<close> put \<^verbatim>\<open>-t <table> \<close> after
  \<^verbatim>\<open>sudo iptables \<close> exactly when the table is not \<^verbatim>\<open>filter\<close>. A table that is not given
  is \<^verbatim>\<open>filter\<close>.
\<close>

theorem commands_sent:
  assumes "connections w sid = Some c"
  shows "sent (snd (listRules host w sid (Str table))) =
           sent w @ [(c, js ''sudo iptables -t '' @ table @ js '' -L -n -v --line-numbers'')]
       \<and> sent (snd (listAllRules host w sid)) =
           sent w @ map (\<lambda>t. (c, js ''sudo iptables -t '' @ t @ js '' -L -n -v --line-numbers''))
                      [js ''filter'', js ''nat'', js ''raw'', js ''mangle'']
       \<and> sent (snd (getIptablesSave host w sid)) = sent w @ [(c, js ''sudo iptables-save'')]
       \<and> sent (snd (saveRules host w sid)) =
           sent w @ [(c, js ''sudo iptables-save > /etc/iptables/rules.v4'')]
       \<and> sent (snd (restoreRules host w sid)) =
           sent w @ [(c, js ''sudo iptables-restore < /etc/iptables/rules.v4'')]
       \<and> sent (snd (addRule host w sid rule (Str table))) =
           sent w @ [(c, js ''sudo iptables '' @
                         (if table \<noteq> js ''filter'' then js ''-t '' @ table @ js '' '' else []) @
                         rule)]
       \<and> sent (snd (deleteRule host w sid chainName ruleNumber (Str table))) =
           sent w @ [(c, js ''sudo iptables '' @
                         (if table \<noteq> js ''filter'' then js ''-t '' @ table @ js '' '' else []) @
                         js ''-D '' @ chainName @ js '' '' @ ruleNumber)]
       \<and> listRules host w sid Undefined = listRules host w sid (Str (js ''filter''))
       \<and> addRule host w sid rule Undefined = addRule host w sid rule (Str (js ''filter''))
       \<and> deleteRule host w sid chainName ruleNumber Undefined =
           deleteRule host w sid chainName ruleNumber (Str (js ''filter''))"
proof -
  have one: "\<And>cmd. sent (snd (executeCommand host w sid cmd)) = sent w @ [(c, cmd)]"
    using assms by (simp add: executeCommand_world)
  have "sent (snd (listAllRules host w sid)) =
          sent w @ map (\<lambda>t. (c, js ''sudo iptables -t '' @ t @ js '' -L -n -v --line-numbers''))
                     [js ''filter'', js ''nat'', js ''raw'', js ''mangle'']"
    using assms
    by (simp add: listAllRules_def Let_def split_beta listTable_world executeCommand_connections)
       (simp add: executeCommand_world)
  moreover have "sent (snd (listRules host w sid (Str table))) =
      sent w @ [(c, js ''sudo iptables -t '' @ table @ js '' -L -n -v --line-numbers'')]"
    by (simp add: listRules_def Let_def split_beta one orDefault_def)
  moreover have "sent (snd (getIptablesSave host w sid)) = sent w @ [(c, js ''sudo iptables-save'')]"
    by (simp add: getIptablesSave_def Let_def split_beta one)
  moreover have "sent (snd (saveRules host w sid)) =
      sent w @ [(c, js ''sudo iptables-save > /etc/iptables/rules.v4'')]"
    by (simp add: saveRules_def Let_def split_beta one)
  moreover have "sent (snd (restoreRules host w sid)) =
      sent w @ [(c, js ''sudo iptables-restore < /etc/iptables/rules.v4'')]"
    by (simp add: restoreRules_def Let_def split_beta one)
  moreover have "sent (snd (addRule host w sid rule (Str table))) =
      sent w @ [(c, js ''sudo iptables '' @
                    (if table \<noteq> js ''filter'' then js ''-t '' @ table @ js '' '' else []) @ rule)]"
    by (simp add: addRule_def Let_def split_beta one orDefault_def)
  moreover have "sent (snd (deleteRule host w sid chainName ruleNumber (Str table))) =
      sent w @ [(c, js ''sudo iptables '' @
                    (if table \<noteq> js ''filter'' then js ''-t '' @ table @ js '' '' else []) @
                    js ''-D '' @ chainName @ js '' '' @ ruleNumber)]"
    by (simp add: deleteRule_def Let_def split_beta one orDefault_def)
  moreover have "listRules host w sid Undefined = listRules host w sid (Str (js ''filter''))"
    by (simp add: listRules_def orDefault_def)
  moreover have "addRule host w sid rule Undefined = addRule host w sid rule (Str (js ''filter''))"
    by (simp add: addRule_def orDefault_def)
  moreover have "deleteRule host w sid chainName ruleNumber Undefined =
      deleteRule host w sid chainName ruleNumber (Str (js ''filter''))"
    by (simp add: deleteRule_def orDefault_def)
  ultimately show ?thesis by simp
qed

theorem commands_sent_witness:
  "connections (snd (connect initial (js ''s1'') Ready)) (js ''s1'') = Some 0
   \<and> sent (snd (addRule (\<lambda>h c cmd. Closed (Some 0) [] []) (snd (connect initial (js ''s1'') Ready))
                  (js ''s1'') (js ''-A INPUT -j DROP'') (Str (js ''nat'')))) =
       [(0, js ''sudo iptables -t nat -A INPUT -j DROP'')]
   \<and> sent (snd (deleteRule (\<lambda>h c cmd. Closed (Some 0) [] []) (snd (connect initial (js ''s1'') Ready))
                  (js ''s1'') (js ''INPUT'') (js ''3'') (Str (js ''filter'')))) =
       [(0, js ''sudo iptables -D INPUT 3'')]"
proof -
  have h: "connections (snd (connect initial (js ''s1'') Ready)) (js ''s1'') = Some 0"
    by (simp add: connect_def initial_def)
  have s: "\<And>x. sent (snd (connect initial x Ready)) = []"
    by (simp add: connect_def initial_def)
  show ?thesis
    using h commands_sent [OF h, of "\<lambda>h c cmd. Closed (Some 0) [] []" "js ''nat''"
                             "js ''-A INPUT -j DROP''" "js ''INPUT''" "js ''3''"]
          commands_sent [OF h, of "\<lambda>h c cmd. Closed (Some 0) [] []" "js ''filter''"
                             "js ''-A INPUT -j DROP''" "js ''INPUT''" "js ''3''"]
    by (simp add: s js_def)
qed

subsection \<open>C5: a failing table does not abort listAllRules\<close>

text \<open>
  Claim C5. For every session, world and remote host, \<open>listAllRules\<close> returns normally
  (it never throws), and the map it returns has exactly the four keys \<^verbatim>\<open>filter\<close>,
  \<^verbatim>\<open>nat\<close>, \<^verbatim>\<open>raw\<close>, \<^verbatim>\<open>mangle\<close>. The four listing commands are run in that order, each
  in the world the previous one left; a table whose command failed is bound to the empty
  list, and a table whose command succeeded is bound to the parse of its output.
\<close>

theorem listAllRules_partial_failure:
  fixes host :: remote and w :: world and sid :: session
  defines "x1 \<equiv> executeCommand host w sid (listCommand (js ''filter''))"
  defines "x2 \<equiv> executeCommand host (snd x1) sid (listCommand (js ''nat''))"
  defines "x3 \<equiv> executeCommand host (snd x2) sid (listCommand (js ''raw''))"
  defines "x4 \<equiv> executeCommand host (snd x3) sid (listCommand (js ''mangle''))"
  shows "\<exists>c1 c2 c3 c4.
           listAllRules host w sid =
             (Inr [js ''filter'' \<mapsto> c1, js ''nat'' \<mapsto> c2, js ''raw'' \<mapsto> c3, js ''mangle'' \<mapsto> c4],
              snd x4)
           \<and> entryFor (fst x1) c1 \<and> entryFor (fst x2) c2
           \<and> entryFor (fst x3) c3 \<and> entryFor (fst x4) c4"
proof -
  obtain c1 where c1: "entryFor (fst x1) c1"
    "listTable host sid (Map.empty, w) (js ''filter'') = ([js ''filter'' \<mapsto> c1], snd x1)"
    unfolding x1_def using listTable_entry [OF table_names(1)] by blast
  obtain c2 where c2: "entryFor (fst x2) c2"
    "listTable host sid ([js ''filter'' \<mapsto> c1], snd x1) (js ''nat'') =
       ([js ''filter'' \<mapsto> c1, js ''nat'' \<mapsto> c2], snd x2)"
    unfolding x2_def using listTable_entry [OF table_names(2)] by blast
  obtain c3 where c3: "entryFor (fst x3) c3"
    "listTable host sid ([js ''filter'' \<mapsto> c1, js ''nat'' \<mapsto> c2], snd x2) (js ''raw'') =
       ([js ''filter'' \<mapsto> c1, js ''nat'' \<mapsto> c2, js ''raw'' \<mapsto> c3], snd x3)"
    unfolding x3_def using listTable_entry [OF table_names(3)] by blast
  obtain c4 where c4: "entryFor (fst x4) c4"
    "listTable host sid ([js ''filter'' \<mapsto> c1, js ''nat'' \<mapsto> c2, js ''raw'' \<mapsto> c3], snd x3)
       (js ''mangle'') =
       ([js ''filter'' \<mapsto> c1, js ''nat'' \<mapsto> c2, js ''raw'' \<mapsto> c3, js ''mangle'' \<mapsto> c4], snd x4)"
    unfolding x4_def using listTable_entry [OF table_names(4)] by blast
  have "listAllRules host w sid =
          (Inr [js ''filter'' \<mapsto> c1, js ''nat'' \<mapsto> c2, js ''raw'' \<mapsto> c3, js ''mangle'' \<mapsto> c4],
           snd x4)"
    by (simp add: listAllRules_def c1(2) c2(2) c3(2) c4(2))
  with c1(1) c2(1) c3(1) c4(1) show ?thesis by blast
qed

lemma example_listing:
  "parseIptablesOutput (js ''Chain INPUT (policy ACCEPT)'') =
     Inr [\<lparr>chain = Str (js ''INPUT''), rules = []\<rparr>]"
  by code_simp

lemma example_commands:
  "listCommand (js ''filter'') \<noteq> listCommand (js ''nat'')"
  "listCommand (js ''raw'') \<noteq> listCommand (js ''nat'')"
  "listCommand (js ''mangle'') \<noteq> listCommand (js ''nat'')"
  by code_simp+

theorem listAllRules_partial_failure_witness:
  "fst (listAllRules
          (\<lambda>h c cmd. if cmd = listCommand (js ''nat'') then Closed (Some 1) [] (js ''denied'')
                      else Closed (Some 0) (js ''Chain INPUT (policy ACCEPT)'') [])
          (snd (connect initial (js ''s1'') Ready)) (js ''s1'')) =
   Inr [js ''filter'' \<mapsto> [\<lparr>chain = Str (js ''INPUT''), rules = []\<rparr>],
        js ''nat'' \<mapsto> [],
        js ''raw'' \<mapsto> [\<lparr>chain = Str (js ''INPUT''), rules = []\<rparr>],
        js ''mangle'' \<mapsto> [\<lparr>chain = Str (js ''INPUT''), rules = []\<rparr>]]"
proof -
  let ?host = "\<lambda>(h :: (client \<times> jsstring) list) (c :: client) cmd.
                 if cmd = listCommand (js ''nat'') then Closed (Some 1) [] (js ''denied'')
                 else Closed (Some 0) (js ''Chain INPUT (policy ACCEPT)'') []"
  let ?w = "snd (connect initial (js ''s1'') Ready)"
  have conn: "connections ?w (js ''s1'') = Some 0"
    by (simp add: connect_def initial_def)
  have ok: "fst (executeCommand ?host w' (js ''s1'') cmd) =
              (if cmd = listCommand (js ''nat'') then Inl (CommandFailed (Some 1) (js ''denied''))
               else Inr (js ''Chain INPUT (policy ACCEPT)''))"
    if "connections w' (js ''s1'') = Some 0" for w' cmd
    using that by (simp add: executeCommand_def)
  obtain c1 c2 c3 c4 where
    r: "fst (listAllRules ?host ?w (js ''s1'')) =
          Inr [js ''filter'' \<mapsto> c1, js ''nat'' \<mapsto> c2, js ''raw'' \<mapsto> c3, js ''mangle'' \<mapsto> c4]"
    and e1: "entryFor (Inr (js ''Chain INPUT (policy ACCEPT)'')) c1"
    and e2: "entryFor (Inl (CommandFailed (Some 1) (js ''denied''))) c2"
    and e3: "entryFor (Inr (js ''Chain INPUT (policy ACCEPT)'')) c3"
    and e4: "entryFor (Inr (js ''Chain INPUT (policy ACCEPT)'')) c4"
    using listAllRules_partial_failure [of ?host ?w "js ''s1''"]
    by (auto simp: ok conn executeCommand_connections example_commands)
  from e1 e2 e3 e4 have "c1 = [\<lparr>chain = Str (js ''INPUT''), rules = []\<rparr>]" "c2 = []"
    "c3 = [\<lparr>chain = Str (js ''INPUT''), rules = []\<rparr>]" "c4 = [\<lparr>chain = Str (js ''INPUT''), rules = []\<rparr>]"
    by (simp_all add: entryFor_def example_listing)
  with r show ?thesis by simp
qed

subsection \<open>C6: connections per session\<close>

text \<open>
  Claim C6 says that a session never has more than one live connection, in particular
  after a session that is open is opened again. \<open>connect\<close> overwrites the entry of the
  session without ending the client it held, unlike \<open>disconnect\<close>, which ends the client
  before it deletes the entry. After two successful calls of \<open>connect\<close> for one session
  both clients are live, only the second is registered, and \<open>disconnect\<close> ends the second
  only: the first stays live and nothing in the service can reach it any more.
\<close>

theorem reopen_leaves_two_live:
  "live (snd (connect (snd (connect initial (js ''s1'') Ready)) (js ''s1'') Ready)) =
     [(0, js ''s1''), (1, js ''s1'')]
   \<and> connections (snd (connect (snd (connect initial (js ''s1'') Ready)) (js ''s1'') Ready))
       (js ''s1'') = Some 1
   \<and> live (disconnect (snd (connect (snd (connect initial (js ''s1'') Ready)) (js ''s1'') Ready))
             (js ''s1'')) = [(0, js ''s1'')]"
  by (simp add: connect_def disconnect_def initial_def)

subsection \<open>C7: a rule for a chain that was not declared\<close>

text \<open>
  Claim C7. In a dump, take a line that starts with \<^verbatim>\<open>-A \<close> and in which
  \<^verbatim>\<open>/-A\s+(\S+)\s+(.*)/\<close> matches, its first group being a chain that no \<^verbatim>\<open>:\<close> line has
  declared since the last \<^verbatim>\<open>*\<close> line before it. \<open>parseIptablesSave\<close> returns for the
  dump exactly what it returns for the dump without that line, and it returns a value,
  not an error: the line is dropped silently.
\<close>

theorem undeclared_chain_rule_dropped:
  assumes "splitLines out = pre @ line # post"
    and "splitLines out' = pre @ post"
    and "startsWith line (js ''-A '')"
    and "search appendRule_at line = Some gs"
    and "gs ! 1 \<notin> set (declaredChains pre)"
  shows "parseIptablesSave out = parseIptablesSave out' \<and> (\<exists>tables. parseIptablesSave out = Inr tables)"
proof -
  obtain st where "foldE saveLine pre (Map.empty, Null, []) = Inr st"
    using foldE_total [of saveLine] saveLine_total by blast
  then obtain t c cc where st: "foldE saveLine pre (Map.empty, Null, []) = Inr (t, c, cc)"
    by (cases st) auto
  then have "map chain cc = declaredChains pre"
    using foldE_saveLine_names [OF st] by (simp add: declaredChains_def)
  with assms have "saveLine (t, c, cc) line = Inr (t, c, cc)"
    by (simp add: undeclared_dropped)
  then have "foldE saveLine (pre @ line # post) (Map.empty, Null, []) =
             foldE saveLine (pre @ post) (Map.empty, Null, [])"
    by (simp add: foldE_append st)
  with assms(1,2) have "parseIptablesSave out = parseIptablesSave out'"
    by (simp add: parseIptablesSave_def)
  then show ?thesis
    using parseIptablesSave_total by blast
qed

theorem undeclared_chain_rule_dropped_witness:
  "splitLines (js ''*filter'' @ [10] @ js '':INPUT ACCEPT [0:0]'' @ [10] @
               js ''-A FORWARD -j DROP'' @ [10] @ js ''-A INPUT -j ACCEPT'') =
     [js ''*filter'', js '':INPUT ACCEPT [0:0]''] @ js ''-A FORWARD -j DROP'' # [js ''-A INPUT -j ACCEPT'']
   \<and> splitLines (js ''*filter'' @ [10] @ js '':INPUT ACCEPT [0:0]'' @ [10] @
                 js ''-A INPUT -j ACCEPT'') =
     [js ''*filter'', js '':INPUT ACCEPT [0:0]''] @ [js ''-A INPUT -j ACCEPT'']
   \<and> startsWith (js ''-A FORWARD -j DROP'') (js ''-A '')
   \<and> search appendRule_at (js ''-A FORWARD -j DROP'') =
       Some [Str (js ''-A FORWARD -j DROP''), Str (js ''FORWARD''), Str (js ''-j DROP'')]
   \<and> [Str (js ''-A FORWARD -j DROP''), Str (js ''FORWARD''), Str (js ''-j DROP'')] ! 1
       \<notin> set (declaredChains [js ''*filter'', js '':INPUT ACCEPT [0:0]''])
   \<and> parseIptablesSave (js ''*filter'' @ [10] @ js '':INPUT ACCEPT [0:0]'' @ [10] @
                         js ''-A FORWARD -j DROP'' @ [10] @ js ''-A INPUT -j ACCEPT'') =
     parseIptablesSave (js ''*filter'' @ [10] @ js '':INPUT ACCEPT [0:0]'' @ [10] @
                        js ''-A INPUT -j ACCEPT'')"
proof -
  have h1: "splitLines (js ''*filter'' @ [10] @ js '':INPUT ACCEPT [0:0]'' @ [10] @
               js ''-A FORWARD -j DROP'' @ [10] @ js ''-A INPUT -j ACCEPT'') =
     [js ''*filter'', js '':INPUT ACCEPT [0:0]''] @ js ''-A FORWARD -j DROP'' # [js ''-A INPUT -j ACCEPT'']"
    by code_simp
  have h2: "splitLines (js ''*filter'' @ [10] @ js '':INPUT ACCEPT [0:0]'' @ [10] @
                 js ''-A INPUT -j ACCEPT'') =
     [js ''*filter'', js '':INPUT ACCEPT [0:0]''] @ [js ''-A INPUT -j ACCEPT'']"
    by code_simp
  have h3: "startsWith (js ''-A FORWARD -j DROP'') (js ''-A '')"
    by code_simp
  have h4: "search appendRule_at (js ''-A FORWARD -j DROP'') =
       Some [Str (js ''-A FORWARD -j DROP''), Str (js ''FORWARD''), Str (js ''-j DROP'')]"
    by code_simp
  have h5: "[Str (js ''-A FORWARD -j DROP''), Str (js ''FORWARD''), Str (js ''-j DROP'')] ! 1
       \<notin> set (declaredChains [js ''*filter'', js '':INPUT ACCEPT [0:0]''])"
    by code_simp
  from undeclared_chain_rule_dropped [OF h1 h2 h3 h4 h5] h1 h2 h3 h4 h5
  show ?thesis by blast
qed

subsection \<open>C8: the parsers never throw\<close>

text \<open>
  Claim C8. On every string, \<open>parseIptablesOutput\<close>, \<open>parseIptablesSave\<close>,
  \<open>parseExtraFields\<close> and \<open>parseRuleContent\<close> return a value, never an error; on the empty
  string \<open>parseIptablesOutput\<close> returns the empty list and \<open>parseIptablesSave\<close> the empty
  map.
\<close>

theorem parsers_never_throw:
  "(\<exists>chains. parseIptablesOutput s = Inr chains)
   \<and> (\<exists>tables. parseIptablesSave s = Inr tables)
   \<and> (\<exists>fields. parseExtraFields s = Inr fields)
   \<and> (\<exists>p. parseRuleContent (Str s) = Inr p)
   \<and> parseIptablesOutput [] = Inr []
   \<and> parseIptablesSave [] = Inr Map.empty"
proof -
  have "parseIptablesOutput [] = Inr []"
    by (simp add: parseIptablesOutput_def listingLine_def ruleNumber_match_def many_def
          many1_def empty_line_prefixes)
  moreover have "parseIptablesSave [] = Inr Map.empty"
    by (simp add: parseIptablesSave_def saveLine_def empty_line_prefixes)
  ultimately show ?thesis
    using parseIptablesOutput_total [of s] parseIptablesSave_total [of s]
      parseExtraFields_total [of s] parseRuleContent_total [of s]
    by simp
qed

subsection \<open>C9: tokens that are neither options nor values\<close>

text \<open>
  Claim C9. In the loop of \<open>parseRuleContent\<close>, a token that does not start with \<^verbatim>\<open>-\<close>
  and is not in the value position (the position right after a token starting with
  \<^verbatim>\<open>-\<close> that the loop has read as an option) is discarded: the result is the one of the
  token list without that token, so the token reaches no field, not even \<^verbatim>\<open>other\<close>. On
  \<^verbatim>\<open>-p -j ACCEPT\<close> the protocol is \<^verbatim>\<open>-j\<close>, the target stays \<^verbatim>\<open>null\<close>, and \<^verbatim>\<open>ACCEPT\<close> is
  nowhere in the result.
\<close>

theorem ignored_tokens_discarded:
  "(j < length ts \<and> \<not> startsWith (ts ! j) (js ''-'')
      \<and> \<not> (0 < j \<and> j - 1 \<in> set (loopHeads ts 0) \<and> startsWith (ts ! (j - 1)) (js ''-''))
    \<longrightarrow> parseTokens (take j ts @ drop (Suc j) ts) p = parseTokens ts p)
   \<and> parseRuleContent (Str (js ''-p -j ACCEPT'')) =
       Inr \<lparr>protocol = Str (js ''-j''), source' = Null, destination' = Null, sport = Null,
            dport = Null, target' = Null, toDestination' = Null, other = []\<rparr>"
proof
  show "j < length ts \<and> \<not> startsWith (ts ! j) (js ''-'')
      \<and> \<not> (0 < j \<and> j - 1 \<in> set (loopHeads ts 0) \<and> startsWith (ts ! (j - 1)) (js ''-''))
    \<longrightarrow> parseTokens (take j ts @ drop (Suc j) ts) p = parseTokens ts p"
    using discard_at [of j ts 0 p] by simp
  show "parseRuleContent (Str (js ''-p -j ACCEPT'')) =
       Inr \<lparr>protocol = Str (js ''-j''), source' = Null, destination' = Null, sport = Null,
            dport = Null, target' = Null, toDestination' = Null, other = []\<rparr>"
    by code_simp
qed

theorem ignored_tokens_discarded_witness:
  "(2::nat) < length [js ''-p'', js ''-j'', js ''ACCEPT'']
   \<and> \<not> startsWith ([js ''-p'', js ''-j'', js ''ACCEPT''] ! 2) (js ''-'')
   \<and> loopHeads [js ''-p'', js ''-j'', js ''ACCEPT''] 0 = [0, 2]
   \<and> parseTokens [js ''-p'', js ''-j''] 
         \<lparr>protocol = Null, source' = Null, destination' = Null, sport = Null,
          dport = Null, target' = Null, toDestination' = Null, other = []\<rparr> =
       parseTokens [js ''-p'', js ''-j'', js ''ACCEPT'']
         \<lparr>protocol = Null, source' = Null, destination' = Null, sport = Null,
          dport = Null, target' = Null, toDestination' = Null, other = []\<rparr>"
proof -
  have h: "(2::nat) < length [js ''-p'', js ''-j'', js ''ACCEPT'']
     \<and> \<not> startsWith ([js ''-p'', js ''-j'', js ''ACCEPT''] ! 2) (js ''-'')
     \<and> loopHeads [js ''-p'', js ''-j'', js ''ACCEPT''] 0 = [0, 2]"
    by code_simp
  then have "\<not> (0 < (2::nat) \<and> 2 - 1 \<in> set (loopHeads [js ''-p'', js ''-j'', js ''ACCEPT''] 0)
      \<and> startsWith ([js ''-p'', js ''-j'', js ''ACCEPT''] ! (2 - 1)) (js ''-''))"
    by simp
  with h ignored_tokens_discarded [of 2 "[js ''-p'', js ''-j'', js ''ACCEPT'']"
      "\<lparr>protocol = Null, source' = Null, destination' = Null, sport = Null,
        dport = Null, target' = Null, toDestination' = Null, other = []\<rparr>"]
  have "parseTokens (take 2 [js ''-p'', js ''-j'', js ''ACCEPT''] @
                     drop (Suc 2) [js ''-p'', js ''-j'', js ''ACCEPT''])
         \<lparr>protocol = Null, source' = Null, destination' = Null, sport = Null,
          dport = Null, target' = Null, toDestination' = Null, other = []\<rparr> =
       parseTokens [js ''-p'', js ''-j'', js ''ACCEPT'']
         \<lparr>protocol = Null, source' = Null, destination' = Null, sport = Null,
          dport = Null, target' = Null, toDestination' = Null, other = []\<rparr>"
    by blast
  then have "parseTokens [js ''-p'', js ''-j'']
         \<lparr>protocol = Null, source' = Null, destination' = Null, sport = Null,
          dport = Null, target' = Null, toDestination' = Null, other = []\<rparr> =
       parseTokens [js ''-p'', js ''-j'', js ''ACCEPT'']
         \<lparr>protocol = Null, source' = Null, destination' = Null, sport = Null,
          dport = Null, target' = Null, toDestination' = Null, other = []\<rparr>"
    by (simp del: parseTokens.simps)
  with h show ?thesis
    by (simp del: parseTokens.simps)
qed

subsection \<open>C10: a table name that occurs in several headers\<close>







end
